theory Spec2Isabelle
  imports Complex_Main
begin

section \<open>Unified resource search of the Kubernetes tool server\<close>

text \<open>
  A shallow embedding of \<^verbatim>\<open>src/tools/kubectl-unified-search.ts\<close>: strategy selection,
  namespace resolution, the batched two-phase scan, the edit distance and the final sort.

  Conventions of the model.
  \<^item> A JavaScript string is a \<open>string\<close>: a \<open>char\<close> is a code unit below 256 (ASCII and
    Latin-1), and \<open>toLowerCase\<close>, \<open>trim\<close> and the class \<^verbatim>\<open>\s\<close> are those of JavaScript
    on these code units. Strings with a code unit from 256 on are outside the model.
  \<^item> A JavaScript number that counts something is an \<open>int\<close> or a \<open>nat\<close>. A score is a
    double: the model holds its exact value, a \<open>rat\<close>, and rounds the result of every
    division, subtraction and multiplication of the source with \<open>double\<close>.
  \<^item> A thrown \<^verbatim>\<open>Error\<close> is \<open>Inl message\<close> of a sum type.
  \<^item> The processes and libraries the search calls (the \<^verbatim>\<open>kubectl\<close> commands with the parsing
    of their output, \<^verbatim>\<open>RegExp\<close>, \<^verbatim>\<open>localeCompare\<close>) are the fields of a record \<open>env\<close>.
  \<^item> Record fields carry the names of the source; where a parameter of a function has the
    name of a field it is shortened (\<open>q\<close> for \<^verbatim>\<open>query\<close>, \<open>rtype\<close> for \<^verbatim>\<open>resourceType\<close>,
    \<open>ns\<close> for \<^verbatim>\<open>namespace\<close>, \<open>lmt\<close> for \<^verbatim>\<open>limit\<close>).
\<close>

subsection \<open>Strings\<close>

text \<open>\<^verbatim>\<open>s.startsWith(p)\<close> and \<^verbatim>\<open>s.includes(sub)\<close>.\<close>

fun startsWith :: "string \<Rightarrow> string \<Rightarrow> bool" where
  "startsWith s [] = True"
| "startsWith [] (p # ps) = False"
| "startsWith (c # s) (p # ps) = (c = p \<and> startsWith s ps)"

fun includesStr :: "string \<Rightarrow> string \<Rightarrow> bool" where
  "includesStr [] sub = (sub = [])"
| "includesStr (c # s) sub = (startsWith (c # s) sub \<or> includesStr s sub)"

text \<open>
  \<^verbatim>\<open>s.toLowerCase()\<close>: the letters A to Z (codes 65 to 90) and the Latin-1 capitals
  (codes 192 to 222, without the multiplication sign 215) move up by 32.
\<close>

definition toLowerCase :: "string \<Rightarrow> string" where
  "toLowerCase s =
     map (\<lambda>c. let n = (of_char c :: nat) in
               if (65 \<le> n \<and> n \<le> 90) \<or> (192 \<le> n \<and> n \<le> 222 \<and> n \<noteq> 215)
               then char_of (n + 32) else c) s"

text \<open>
  White space and line ends, as \<^verbatim>\<open>trim\<close> and \<^verbatim>\<open>\s\<close> know them: tab, line feed,
  vertical tab, form feed, carriage return, space and the no-break space (code 160).
\<close>

definition isWhitespace :: "char \<Rightarrow> bool" where
  "isWhitespace c = ((of_char c :: nat) \<in> {9, 10, 11, 12, 13, 32, 160})"

definition trim :: "string \<Rightarrow> string" where
  "trim s = rev (dropWhile isWhitespace (rev (dropWhile isWhitespace s)))"

text \<open>
  \<^verbatim>\<open>s.replace(/pat/g, rep)\<close> for a pattern that matches the literal text \<open>pat\<close>: the
  occurrences are replaced from left to right, and the scan goes on behind each one.
\<close>

fun replaceAll :: "string \<Rightarrow> string \<Rightarrow> string \<Rightarrow> string" where
  "replaceAll pat rep [] = []"
| "replaceAll pat rep (c # s) =
     (if startsWith (c # s) pat then rep @ replaceAll pat rep (drop (length pat - 1) s)
      else c # replaceAll pat rep s)"

text \<open>\<^verbatim>\<open>s.replace(pat, rep)\<close> with a string pattern: the first occurrence only.\<close>

fun replaceFirst :: "string \<Rightarrow> string \<Rightarrow> string \<Rightarrow> string" where
  "replaceFirst pat rep [] = []"
| "replaceFirst pat rep (c # s) =
     (if startsWith (c # s) pat then rep @ drop (length pat - 1) s
      else c # replaceFirst pat rep s)"

text \<open>\<^verbatim>\<open>s.split(sep)\<close> for a separator that is one character of a class.\<close>

fun splitOn :: "(char \<Rightarrow> bool) \<Rightarrow> string \<Rightarrow> string list" where
  "splitOn p [] = [[]]"
| "splitOn p (c # s) =
     (if p c then [] # splitOn p s
      else (case splitOn p s of [] \<Rightarrow> [[c]] | w # ws \<Rightarrow> (c # w) # ws))"

text \<open>The decimal digits of a number, as a template literal prints it.\<close>

fun showNat :: "nat \<Rightarrow> string" where
  "showNat n =
     (if n < 10 then [char_of (48 + n)]
      else showNat (n div 10) @ [char_of (48 + n mod 10)])"

text \<open>
  \<^verbatim>\<open>xs.slice(start, end)\<close> on integers: a negative index counts from the end, and both
  are clamped to the array.
\<close>

definition slice :: "'a list \<Rightarrow> int \<Rightarrow> int \<Rightarrow> 'a list" where
  "slice xs start end =
     (let len = int (length xs);
          k = (if start < 0 then max (len + start) 0 else min start len);
          final = (if end < 0 then max (len + end) 0 else min end len)
      in take (nat (final - k)) (drop (nat k) xs))"

text \<open>
  \<^verbatim>\<open>xs.sort(compare)\<close>: a stable sort; \<open>compare a b \<le> 0\<close> keeps \<open>a\<close> before \<open>b\<close>.
  Only the sign of \<open>compare a b\<close> is read, and the difference of two doubles has the
  sign of its rounded value, so the comparisons by score subtract exactly.
\<close>

fun insertBy :: "('a \<Rightarrow> 'a \<Rightarrow> 'b::linordered_idom) \<Rightarrow> 'a \<Rightarrow> 'a list \<Rightarrow> 'a list" where
  "insertBy compare x [] = [x]"
| "insertBy compare x (y # ys) =
     (if compare x y \<le> 0 then x # y # ys else y # insertBy compare x ys)"

definition sortBy :: "('a \<Rightarrow> 'a \<Rightarrow> 'b::linordered_idom) \<Rightarrow> 'a list \<Rightarrow> 'a list" where
  "sortBy compare xs = foldr (insertBy compare) xs []"

subsection \<open>Doubles\<close>

text \<open>
  The double nearest to a rational, ties to the even mantissa: for \<open>2 ^ e \<le> \<bar>x\<bar> < 2 ^ (e + 1)\<close>
  the doubles around \<open>x\<close> are the multiples of \<open>2 ^ (e - 52)\<close>, and below \<open>2 ^ - 1022\<close>
  those of \<open>2 ^ - 1074\<close>. No number of the search exceeds the largest double.
\<close>

function bitLength :: "int \<Rightarrow> nat" where
  "bitLength n = (if n \<le> 0 then 0 else Suc (bitLength (n div 2)))"
  by pat_completeness auto
termination
  by (relation "measure nat") auto

declare bitLength.simps [simp del]

definition pow2 :: "int \<Rightarrow> rat" where
  "pow2 e = (if 0 \<le> e then 2 ^ nat e else 1 / 2 ^ nat (- e))"

definition roundHalfEven :: "rat \<Rightarrow> int" where
  "roundHalfEven y =
     (let n = \<lfloor>y\<rfloor>; r = y - of_int n
      in if r < 1 / 2 then n else if 1 / 2 < r then n + 1 else if even n then n else n + 1)"

definition double :: "rat \<Rightarrow> rat" where
  "double x =
     (if x = 0 then 0
      else
        (let (p, q) = quotient_of \<bar>x\<bar>;
             e0 = int (bitLength p) - int (bitLength q);
             e = (if pow2 e0 \<le> \<bar>x\<bar> then e0 else e0 - 1);
             ulp = pow2 (max (e - 52) (- 1074))
         in (if x < 0 then - 1 else 1) * of_int (roundHalfEven (\<bar>x\<bar> / ulp)) * ulp))"

subsection \<open>Data\<close>

text \<open>
  An object of the cluster, as the search reads it: \<^verbatim>\<open>metadata.name\<close>,
  \<^verbatim>\<open>metadata.labels\<close> (the entries in the order of \<^verbatim>\<open>Object.entries\<close>; \<open>None\<close> when
  the object has no labels), the time of \<^verbatim>\<open>metadata.creationTimestamp\<close> in milliseconds,
  and for the field strategy the text of each truthy value that a dotted path reaches.
\<close>

record resource =
  name :: string
  labels :: "(string \<times> string) list option"
  creationTimestamp :: int
  fieldText :: "(string \<times> string) list"

record SearchResult =
  resource :: resource
  resourceType :: string
  namespace :: string
  matchScore :: rat
  matchReason :: string
  levenshteinDistance_field :: nat

record SearchConfig =
  maxDistance :: nat
  minScore :: rat

record strategy =
  type :: string
  selector :: string

text \<open>An entry of the array \<^verbatim>\<open>matches\<close> that the scan of one object fills.\<close>

record match =
  score :: rat
  reason :: string
  distance :: nat

text \<open>
  What the search calls outside itself.
  \<^item> \<open>regExp src\<close> is \<^verbatim>\<open>new RegExp(src, 'i')\<close>: \<open>Inl\<close> the text of the SyntaxError, or
    \<open>Inr\<close> the function \<^verbatim>\<open>test\<close>.
  \<^item> \<open>localeCompare a b\<close> is \<^verbatim>\<open>a.localeCompare(b)\<close>.
  \<^item> \<open>execText cmd\<close> is \<^verbatim>\<open>execAsync(cmd)\<close> read as text: \<open>Inl\<close> the text of the
    rejection, or \<open>Inr\<close> the standard output.
  \<^item> \<open>execJson k cmd\<close> is the \<open>k\<close>-th \<^verbatim>\<open>execAsync(cmd)\<close> of the scan followed by
    \<^verbatim>\<open>JSON.parse\<close> and the read of \<^verbatim>\<open>items\<close>: \<open>Inl\<close> when the command or the parsing
    throws, \<open>Inr None\<close> when \<^verbatim>\<open>items\<close> is missing, \<open>Inr (Some items)\<close> otherwise.
\<close>

record env =
  regExp :: "string \<Rightarrow> string + (string \<Rightarrow> bool)"
  localeCompare :: "string \<Rightarrow> string \<Rightarrow> int"
  execText :: "string \<Rightarrow> string + string"
  execJson :: "nat \<Rightarrow> string \<Rightarrow> string + resource list option"

text \<open>The argument of the tool; \<open>None\<close> is a property that is not given.\<close>

record search_input =
  query :: string
  resourceTypes :: "string list option"
  namespaces :: "string list option"
  namespacePattern :: "string option"
  excludeSystemNamespaces :: "bool option"
  searchMode :: "string option"
  fuzzyTolerance :: "string option"
  limit :: "int option"
  includeLabels :: "bool option"
  includeAnnotations :: "bool option"
  sortBy_field :: "string option"
  output_field :: "string option"
  recent :: "bool option"

text \<open>
  \<^verbatim>\<open>formatSearchResults\<close> renders the matches as text and changes none of them; the
  model keeps what it is given to render.
\<close>

record search_output =
  shown :: "SearchResult list"
  searchType :: string

subsection \<open>Strategy and tolerance\<close>

definition determineSearchStrategy :: "string \<Rightarrow> string \<Rightarrow> strategy" where
  "determineSearchStrategy q mode =
     (if mode \<noteq> ''auto'' then \<lparr>type = mode, selector = q\<rparr>
      else if includesStr q ''='' then
        (if includesStr q ''metadata.'' \<or> includesStr q ''status.'' \<or> includesStr q ''spec.''
         then \<lparr>type = ''fields'', selector = q\<rparr>
         else \<lparr>type = ''labels'', selector = q\<rparr>)
      else if includesStr q ''*'' \<or> includesStr q ''?'' then \<lparr>type = ''exact'', selector = q\<rparr>
      else \<lparr>type = ''fuzzy'', selector = q\<rparr>)"

definition getFuzzyConfig :: "string \<Rightarrow> SearchConfig" where
  "getFuzzyConfig tolerance =
     (if tolerance = ''strict'' then \<lparr>maxDistance = 1, minScore = double (8 / 10)\<rparr>
      else if tolerance = ''loose'' then \<lparr>maxDistance = 4, minScore = double (2 / 10)\<rparr>
      else \<lparr>maxDistance = 2, minScore = double (4 / 10)\<rparr>)"

subsection \<open>Edit distance\<close>

text \<open>
  The matrix has one row for each prefix of \<open>str2\<close> and one column for each prefix of
  \<open>str1\<close>. It is filled with \<^verbatim>\<open>null\<close> (here 0), then the first row, the first column and
  the other cells row by row.
\<close>

definition cell :: "nat list list \<Rightarrow> nat \<Rightarrow> nat \<Rightarrow> nat" where
  "cell m j i = m ! j ! i"

definition setCell :: "nat list list \<Rightarrow> nat \<Rightarrow> nat \<Rightarrow> nat \<Rightarrow> nat list list" where
  "setCell m j i v = m[j := (m ! j)[i := v]]"

definition levCell :: "string \<Rightarrow> string \<Rightarrow> nat \<Rightarrow> nat list list \<Rightarrow> nat \<Rightarrow> nat list list" where
  "levCell str1 str2 j m i =
     (let indicator = (if str1 ! (i - 1) = str2 ! (j - 1) then 0 else 1)
      in setCell m j i
           (min (min (cell m j (i - 1) + 1) (cell m (j - 1) i + 1))
                (cell m (j - 1) (i - 1) + indicator)))"

definition levenshteinDistance :: "string \<Rightarrow> string \<Rightarrow> nat" where
  "levenshteinDistance str1 str2 =
     (let matrix0 = replicate (length str2 + 1) (replicate (length str1 + 1) 0);
          matrix1 = fold (\<lambda>i m. setCell m 0 i i) [0..<length str1 + 1] matrix0;
          matrix2 = fold (\<lambda>j m. setCell m j 0 j) [0..<length str2 + 1] matrix1;
          matrix3 = fold (\<lambda>j m. fold (\<lambda>i m. levCell str1 str2 j m i) [1..<length str1 + 1] m)
                      [1..<length str2 + 1] matrix2
      in cell matrix3 (length str2) (length str1))"

text \<open>
  The distance as a recursion on the last characters; the arguments are the two strings
  reversed.
\<close>

fun lev :: "'a list \<Rightarrow> 'a list \<Rightarrow> nat" where
  "lev [] ys = length ys"
| "lev (x # xs) [] = Suc (length xs)"
| "lev (x # xs) (y # ys) =
     min (min (lev xs (y # ys) + 1) (lev (x # xs) ys + 1))
         (lev xs ys + (if x = y then 0 else 1))"

subsection \<open>Namespaces\<close>

text \<open>
  The source text of the regular expression that a wildcard pattern is compiled to: the
  four calls of \<^verbatim>\<open>replace\<close>, in the order of the source. Code 92 is the backslash.
\<close>

definition wildcardRegexSource :: "string \<Rightarrow> string" where
  "wildcardRegexSource pattern =
     replaceAll ''.*'' ''.*''
       (replaceAll ''.'' [char_of (92::nat), CHR ''.'']
          (replaceAll ''?'' ''.''
             (replaceAll ''*'' ''.*'' pattern)))"

definition systemNamespaces :: "string list" where
  "systemNamespaces =
     [''kube-system'', ''kube-public'', ''kube-node-lease'', ''default'',
      ''kubernetes-dashboard'', ''ingress-nginx'', ''cert-manager'',
      ''monitoring'', ''logging'', ''istio-system'', ''linkerd'']"

text \<open>
  \<^verbatim>\<open>maxNamespaces ? xs.slice(0, maxNamespaces) : xs\<close>: an absent bound and the bound 0
  are both falsy.
\<close>

definition applyMaxNamespaces :: "int option \<Rightarrow> string list \<Rightarrow> string list" where
  "applyMaxNamespaces maxNamespaces xs =
     (case maxNamespaces of
        None \<Rightarrow> xs
      | Some n \<Rightarrow> if n \<noteq> 0 then slice xs 0 n else xs)"

definition getTargetNamespaces ::
  "env \<Rightarrow> string list option \<Rightarrow> string option \<Rightarrow> bool \<Rightarrow> string option \<Rightarrow> int option
     \<Rightarrow> string + string list" where
  "getTargetNamespaces e nss nsPattern exclSystem q maxNamespaces =
     (case (case nss of None \<Rightarrow> None | Some l \<Rightarrow> if length l > 0 then Some l else None) of
        Some l \<Rightarrow> Inr (applyMaxNamespaces maxNamespaces l)
      | None \<Rightarrow>
         (case execText e ''kubectl get namespaces -o name'' of
            Inl err \<Rightarrow> Inl (''Failed to get namespaces: '' @ err)
          | Inr stdout \<Rightarrow>
             (let allNamespaces =
                    filter (\<lambda>n. trim n \<noteq> [])
                      (map (replaceFirst ''namespace/'' [])
                         (splitOn (\<lambda>c. c = char_of (10::nat)) (trim stdout)));
                  allNamespaces =
                    (if exclSystem
                     then filter (\<lambda>n. \<not> List.member systemNamespaces n \<and>
                                       \<not> startsWith n ''kube-'' \<and>
                                       \<not> startsWith n ''openshift-'') allNamespaces
                     else allNamespaces)
              in case (case nsPattern of None \<Rightarrow> None | Some p \<Rightarrow> if p \<noteq> [] then Some p else None) of
                   None \<Rightarrow> Inr (applyMaxNamespaces maxNamespaces allNamespaces)
                 | Some p \<Rightarrow>
                    (case regExp e (wildcardRegexSource p) of
                       Inl err \<Rightarrow> Inl (''Failed to get namespaces: '' @ err)
                     | Inr test \<Rightarrow>
                        Inr (applyMaxNamespaces maxNamespaces (filter test allNamespaces))))))"

subsection \<open>Priorities\<close>

fun prioritizeLoop :: "string list \<Rightarrow> string \<Rightarrow> string list \<Rightarrow> string list \<Rightarrow> string list" where
  "prioritizeLoop [] queryLower prioritized regular = prioritized @ regular"
| "prioritizeLoop (n # rest) queryLower prioritized regular =
     (let namespaceLower = toLowerCase n in
      if includesStr namespaceLower queryLower
      then prioritizeLoop rest queryLower (prioritized @ [n]) regular
      else if (includesStr queryLower ''dev'' \<and> includesStr namespaceLower ''dev'') \<or>
              (includesStr queryLower ''prod'' \<and> includesStr namespaceLower ''prod'') \<or>
              (includesStr queryLower ''test'' \<and> includesStr namespaceLower ''test'') \<or>
              (includesStr queryLower ''demo'' \<and> includesStr namespaceLower ''demo'')
      then prioritizeLoop rest queryLower (prioritized @ [n]) regular
      else prioritizeLoop rest queryLower prioritized (regular @ [n]))"

definition prioritizeNamespaces :: "string list \<Rightarrow> string \<Rightarrow> string list" where
  "prioritizeNamespaces nss q = prioritizeLoop nss (toLowerCase q) [] []"

text \<open>
  The object \<^verbatim>\<open>priority\<close> is a function from the kinds to their numbers. Only kinds of
  the list are read, and \<^verbatim>\<open>forEach\<close> has given each of them its index before.
\<close>

definition prioritizeResourceTypes :: "string list \<Rightarrow> string \<Rightarrow> string list" where
  "prioritizeResourceTypes rtypes q =
     (let queryLower = toLowerCase q;
          priority = fold (\<lambda>(rt, index) p. p(rt := int index))
                       (zip rtypes [0..<length rtypes]) (\<lambda>_. 0);
          priority = (if includesStr queryLower ''pod'' \<or> includesStr queryLower ''container''
                      then priority(''pods'' := - 10) else priority);
          priority = (if includesStr queryLower ''service'' \<or> includesStr queryLower ''svc''
                      then priority(''services'' := - 9) else priority);
          priority = (if includesStr queryLower ''deploy'' \<or> includesStr queryLower ''app''
                      then priority(''deployments'' := - 8) else priority);
          priority = (if includesStr queryLower ''job''
                      then priority(''jobs'' := - 7, ''cronjobs'' := - 6) else priority)
      in sortBy (\<lambda>a b. priority a - priority b) rtypes)"

subsection \<open>Retrieval\<close>

text \<open>
  One listing call. Code 34 is the double quote. Whatever is thrown is caught and gives
  the empty list, and so does a reply without \<^verbatim>\<open>items\<close>.
\<close>

definition getResourcesWithPreFilter ::
  "env \<Rightarrow> nat \<Rightarrow> string \<Rightarrow> string \<Rightarrow> string option \<Rightarrow> string option \<Rightarrow> resource list" where
  "getResourcesWithPreFilter e k rtype ns labelSelector fieldSelector =
     (let command = ''kubectl get '' @ rtype @ '' -n '' @ ns @ '' -o json'';
          command = (case labelSelector of
                       None \<Rightarrow> command
                     | Some l \<Rightarrow> if l \<noteq> []
                         then command @ '' -l '' @ [char_of (34::nat)] @ l @ [char_of (34::nat)]
                         else command);
          command = (case fieldSelector of
                       None \<Rightarrow> command
                     | Some f \<Rightarrow> if f \<noteq> []
                         then command @ '' --field-selector='' @ [char_of (34::nat)] @ f @
                              [char_of (34::nat)]
                         else command)
      in case execJson e k command of
           Inl err \<Rightarrow> []
         | Inr None \<Rightarrow> []
         | Inr (Some items) \<Rightarrow> items)"

subsection \<open>Quick scan\<close>

fun quickScanLoop ::
  "resource list \<Rightarrow> string \<Rightarrow> string \<Rightarrow> string \<Rightarrow> int \<Rightarrow> SearchResult list \<Rightarrow> SearchResult list" where
  "quickScanLoop [] rtype ns queryLower maxResults results = results"
| "quickScanLoop (r # rest) rtype ns queryLower maxResults results =
     (if int (length results) \<ge> maxResults then results
      else
        (let resourceName = toLowerCase (name r) in
         if includesStr resourceName queryLower
         then quickScanLoop rest rtype ns queryLower maxResults
                (results @ [\<lparr>resource = r, resourceType = rtype, namespace = ns,
                              matchScore = 1, matchReason = ''exact substring match in name'',
                              levenshteinDistance_field = 0\<rparr>])
         else quickScanLoop rest rtype ns queryLower maxResults results))"

definition quickScanResources ::
  "resource list \<Rightarrow> string \<Rightarrow> string \<Rightarrow> string \<Rightarrow> int \<Rightarrow> SearchResult list" where
  "quickScanResources resources rtype ns queryLower maxResults =
     quickScanLoop resources rtype ns queryLower maxResults []"

subsection \<open>Deep scan\<close>

text \<open>The loop over the labels stops at the first label whose text contains the query.\<close>

fun labelLoop :: "(string \<times> string) list \<Rightarrow> string \<Rightarrow> rat \<Rightarrow> match list" where
  "labelLoop [] queryLower sc = []"
| "labelLoop ((key, val) # rest) queryLower sc =
     (let labelText = toLowerCase (key @ ''='' @ val) in
      if includesStr labelText queryLower
      then [\<lparr>score = sc, reason = ''label match ('' @ key @ ''='' @ val @ '')'', distance = 0\<rparr>]
      else labelLoop rest queryLower sc)"

text \<open>
  \<^verbatim>\<open>path.split('.').reduce((current, key) => current?.[key], obj)\<close> followed by the test
  of the value and by \<^verbatim>\<open>toString()\<close>. The walk into the object is not modelled: a resource
  gives, for each path that reaches a truthy value, the text of that value.
\<close>

definition getFieldValue :: "resource \<Rightarrow> string \<Rightarrow> string option" where
  "getFieldValue obj path = map_of (fieldText obj) path"

text \<open>
  The edit distance branch, in doubles: the quotient, the difference and the product
  are rounded, and 0.9 is the double nearest to 9 / 10. When both strings are empty the
  quotient of the source is 0 / 0, which is NaN, and no comparison with NaN holds.
\<close>

definition fuzzyNameMatch :: "string \<Rightarrow> string \<Rightarrow> SearchConfig \<Rightarrow> match list" where
  "fuzzyNameMatch queryLower resourceName searchConfig =
     (let lengthDiff = nat \<bar>int (length queryLower) - int (length resourceName)\<bar> in
      if lengthDiff \<le> maxDistance searchConfig then
        (let dist = levenshteinDistance queryLower resourceName in
         if dist \<le> maxDistance searchConfig then
           (if max (length queryLower) (length resourceName) = 0 then []
            else
              (let sc = double (1 - double (of_nat dist /
                                   of_nat (max (length queryLower) (length resourceName)))) in
               if sc \<ge> minScore searchConfig
               then [\<lparr>score = double (sc * double (9 / 10)),
                      reason = ''fuzzy name match (distance: '' @ showNat dist @ '')'',
                      distance = dist\<rparr>]
               else []))
         else [])
      else [])"

definition wordBoundaryMatch :: "string \<Rightarrow> string \<Rightarrow> match list" where
  "wordBoundaryMatch queryLower resourceName =
     (if includesStr resourceName ''-'' \<or> includesStr resourceName ''_'' then
        (let wordlist = splitOn (\<lambda>c. c = CHR ''-'' \<or> c = CHR ''_'' \<or> isWhitespace c) resourceName in
         if list_ex (\<lambda>w. includesStr w queryLower) wordlist
         then [\<lparr>score = double (8 / 10), reason = ''word boundary match in name'',
                distance = 0\<rparr>]
         else [])
      else [])"

text \<open>
  \<^verbatim>\<open>w[0]\<close> of an empty word is \<^verbatim>\<open>undefined\<close>, which \<^verbatim>\<open>join\<close> prints as the empty string.
\<close>

definition acronymMatch :: "string \<Rightarrow> string \<Rightarrow> match list" where
  "acronymMatch queryLower resourceName =
     (if includesStr resourceName ''-'' \<and> length queryLower \<le> 4 then
        (let wordlist = splitOn (\<lambda>c. c = CHR ''-'') resourceName in
         if length wordlist > 1 then
           (let acronym = concat (map (take 1) wordlist) in
            if includesStr acronym queryLower
            then [\<lparr>score = double (6 / 10), reason = ''acronym match'', distance = 0\<rparr>]
            else [])
         else [])
      else [])"

text \<open>
  The body of the loop of the deep scan: the array \<^verbatim>\<open>matches\<close> of one object. Each
  later rule of the fuzzy branch runs only while the array is empty.
\<close>

definition resourceMatches ::
  "env \<Rightarrow> resource \<Rightarrow> string \<Rightarrow> strategy \<Rightarrow> SearchConfig \<Rightarrow> bool \<Rightarrow> string + match list" where
  "resourceMatches e r q strat searchConfig inclLabels =
     (let queryLower = toLowerCase q;
          resourceName = toLowerCase (name r)
      in
      if type strat = ''labels'' then
        Inr (case labels r of None \<Rightarrow> [] | Some ls \<Rightarrow> labelLoop ls queryLower 1)
      else if type strat = ''fields'' then
        Inr (case getFieldValue r (selector strat) of
               None \<Rightarrow> []
             | Some fieldValue \<Rightarrow>
                 if includesStr (toLowerCase fieldValue) queryLower
                 then [\<lparr>score = 1, reason = ''field match ('' @ selector strat @ '')'',
                        distance = 0\<rparr>]
                 else [])
      else if type strat = ''exact'' then
        (case regExp e (wildcardRegexSource (selector strat)) of
           Inl err \<Rightarrow> Inl err
         | Inr test \<Rightarrow>
             Inr (if test resourceName
                  then [\<lparr>score = 1, reason = ''exact pattern match'', distance = 0\<rparr>]
                  else []))
      else
        (let matches = fuzzyNameMatch queryLower resourceName searchConfig;
             matches = (if length matches = 0
                        then wordBoundaryMatch queryLower resourceName else matches);
             matches = (if length matches = 0
                        then acronymMatch queryLower resourceName else matches);
             matches = (if length matches = 0 \<and> inclLabels
                        then (case labels r of
                                None \<Rightarrow> matches
                              | Some ls \<Rightarrow> labelLoop ls queryLower (double (7 / 10)))
                        else matches)
         in Inr matches))"

text \<open>\<^verbatim>\<open>matches.reduce((best, current) => current.score > best.score ? current : best)\<close>.\<close>

definition bestOf :: "match \<Rightarrow> match list \<Rightarrow> match" where
  "bestOf first others = fold (\<lambda>current best. if score current > score best then current else best) others first"

fun deepSearchLoop ::
  "env \<Rightarrow> resource list \<Rightarrow> string \<Rightarrow> string \<Rightarrow> string \<Rightarrow> strategy \<Rightarrow> SearchConfig \<Rightarrow> bool \<Rightarrow> bool
     \<Rightarrow> int \<Rightarrow> SearchResult list \<Rightarrow> string + SearchResult list" where
  "deepSearchLoop e [] rtype ns q strat searchConfig inclLabels inclAnnotations maxResults results =
     Inr results"
| "deepSearchLoop e (r # rest) rtype ns q strat searchConfig inclLabels inclAnnotations maxResults results =
     (if int (length results) \<ge> maxResults then Inr results
      else
        (case resourceMatches e r q strat searchConfig inclLabels of
           Inl err \<Rightarrow> Inl err
         | Inr [] \<Rightarrow>
             deepSearchLoop e rest rtype ns q strat searchConfig inclLabels inclAnnotations
               maxResults results
         | Inr (m # ms) \<Rightarrow>
             (let bestMatch = bestOf m ms in
              deepSearchLoop e rest rtype ns q strat searchConfig inclLabels inclAnnotations
                maxResults
                (results @ [\<lparr>resource = r, resourceType = rtype, namespace = ns,
                              matchScore = score bestMatch, matchReason = reason bestMatch,
                              levenshteinDistance_field = distance bestMatch\<rparr>]))))"

definition deepSearchResources ::
  "env \<Rightarrow> resource list \<Rightarrow> string \<Rightarrow> string \<Rightarrow> string \<Rightarrow> strategy \<Rightarrow> SearchConfig \<Rightarrow> bool \<Rightarrow> bool
     \<Rightarrow> int \<Rightarrow> string + SearchResult list" where
  "deepSearchResources e resources rtype ns q strat searchConfig inclLabels inclAnnotations maxResults =
     deepSearchLoop e resources rtype ns q strat searchConfig inclLabels inclAnnotations
       maxResults []"

subsection \<open>The batched scan\<close>

text \<open>
  The function that \<^verbatim>\<open>batch.map\<close> runs for one namespace; \<open>k\<close> numbers its listing
  call and \<open>found\<close> is \<^verbatim>\<open>results.length\<close>, which does not change while a batch runs.
  An error of the deep scan is caught and gives the empty list.
\<close>

definition searchNamespaceUnit ::
  "env \<Rightarrow> nat \<Rightarrow> string \<Rightarrow> string \<Rightarrow> string \<Rightarrow> strategy \<Rightarrow> SearchConfig \<Rightarrow> bool \<Rightarrow> bool
     \<Rightarrow> int \<Rightarrow> nat \<Rightarrow> SearchResult list" where
  "searchNamespaceUnit e k rtype ns q strat searchConfig inclLabels inclAnnotations lmt found =
     (let resources = getResourcesWithPreFilter e k rtype ns None None in
      if length resources = 0 then []
      else
        (let quickMatches = quickScanResources resources rtype ns (toLowerCase q)
                              (min 10 (lmt - int found))
         in
         if length quickMatches < 5 \<and> length quickMatches < length resources then
           (let remainingResources =
                  filter (\<lambda>r. \<not> list_ex (\<lambda>qm. name (resource qm) = name r) quickMatches)
                    resources
            in case deepSearchResources e remainingResources rtype ns q strat searchConfig
                      inclLabels inclAnnotations
                      (min 3 (lmt - int found - int (length quickMatches))) of
                 Inl err \<Rightarrow> []
               | Inr deepMatches \<Rightarrow> quickMatches @ deepMatches)
         else quickMatches))"

text \<open>The loop that adds the results of a batch, namespace by namespace.\<close>

fun mergeBatch :: "int \<Rightarrow> SearchResult list \<Rightarrow> SearchResult list list \<Rightarrow> SearchResult list" where
  "mergeBatch lmt results [] = results"
| "mergeBatch lmt results (namespaceResults # rest) =
     (let results = results @ namespaceResults in
      if int (length results) \<ge> lmt then results else mergeBatch lmt results rest)"

text \<open>
  The loop over the batches of 50 namespaces, for one kind. The state is the array
  \<^verbatim>\<open>results\<close> and the number of listing calls made so far.
\<close>

function batchLoop ::
  "env \<Rightarrow> string \<Rightarrow> string list \<Rightarrow> string \<Rightarrow> strategy \<Rightarrow> SearchConfig \<Rightarrow> bool \<Rightarrow> bool \<Rightarrow> int
     \<Rightarrow> nat \<Rightarrow> SearchResult list \<times> nat \<Rightarrow> SearchResult list \<times> nat" where
  "batchLoop e rtype nss q strat searchConfig inclLabels inclAnnotations lmt i (results, k) =
     (if i < length nss then
        (if int (length results) \<ge> lmt then (results, k)
         else
           (let batch = slice nss (int i) (int i + 50);
                batchResults =
                  map (\<lambda>(ns, n). searchNamespaceUnit e (k + n) rtype ns q strat searchConfig
                                    inclLabels inclAnnotations lmt (length results))
                    (zip batch [0..<length batch]);
                results = mergeBatch lmt results batchResults;
                k = k + length batch
            in if int (length results) \<ge> lmt then (results, k)
               else batchLoop e rtype nss q strat searchConfig inclLabels inclAnnotations lmt
                      (i + 50) (results, k)))
      else (results, k))"
  by pat_completeness auto
termination
  by (relation "measure (\<lambda>(e, rtype, nss, q, strat, searchConfig, inclLabels, inclAnnotations,
                            lmt, i, st). length nss - i)") auto

declare batchLoop.simps [simp del]

fun typeLoop ::
  "env \<Rightarrow> string list \<Rightarrow> string list \<Rightarrow> string \<Rightarrow> strategy \<Rightarrow> SearchConfig \<Rightarrow> bool \<Rightarrow> bool \<Rightarrow> int
     \<Rightarrow> SearchResult list \<times> nat \<Rightarrow> SearchResult list \<times> nat" where
  "typeLoop e [] nss q strat searchConfig inclLabels inclAnnotations lmt (results, k) = (results, k)"
| "typeLoop e (rtype # rest) nss q strat searchConfig inclLabels inclAnnotations lmt (results, k) =
     (if int (length results) \<ge> lmt then (results, k)
      else
        (case batchLoop e rtype nss q strat searchConfig inclLabels inclAnnotations lmt 0
                (results, k) of
           (results, k) \<Rightarrow>
             if int (length results) \<ge> lmt then (results, k)
             else typeLoop e rest nss q strat searchConfig inclLabels inclAnnotations lmt
                    (results, k)))"

definition streamingSearch ::
  "env \<Rightarrow> string list \<Rightarrow> string list \<Rightarrow> string \<Rightarrow> strategy \<Rightarrow> SearchConfig \<Rightarrow> bool \<Rightarrow> bool \<Rightarrow> bool
     \<Rightarrow> int \<Rightarrow> SearchResult list" where
  "streamingSearch e rtypes nss q strat searchConfig inclLabels inclAnnotations rcnt lmt =
     (let prioritizedNamespaces = prioritizeNamespaces nss q;
          prioritizedResourceTypes = prioritizeResourceTypes rtypes q;
          results = fst (typeLoop e prioritizedResourceTypes prioritizedNamespaces q strat
                           searchConfig inclLabels inclAnnotations lmt ([], 0))
      in slice results 0 lmt)"

subsection \<open>Sorting and the tool\<close>

definition sortResults :: "env \<Rightarrow> SearchResult list \<Rightarrow> string \<Rightarrow> SearchResult list" where
  "sortResults e results sortKey =
     (if sortKey = ''name'' then
        sortBy (\<lambda>a b. localeCompare e (name (resource a)) (name (resource b))) results
      else if sortKey = ''age'' then
        sortBy (\<lambda>a b. creationTimestamp (resource b) - creationTimestamp (resource a)) results
      else if sortKey = ''namespace'' then
        sortBy (\<lambda>a b. localeCompare e (namespace a) (namespace b)) results
      else sortBy (\<lambda>a b. matchScore b - matchScore a) results)"

definition formatSearchResults ::
  "SearchResult list \<Rightarrow> string \<Rightarrow> string \<Rightarrow> string \<Rightarrow> search_output" where
  "formatSearchResults results outp q stype = \<lparr>shown = results, searchType = stype\<rparr>"

definition orDefault :: "'a option \<Rightarrow> 'a \<Rightarrow> 'a" where
  "orDefault v d = (case v of None \<Rightarrow> d | Some x \<Rightarrow> x)"

definition kubectlUnifiedSearch :: "env \<Rightarrow> search_input \<Rightarrow> string + search_output" where
  "kubectlUnifiedSearch e input =
     (if query input = [] \<or> length (trim (query input)) = 0
      then Inl ''Search query cannot be empty''
      else
        (let q = query input;
             rtypes = orDefault (resourceTypes input) [''pods'', ''deployments'', ''services''];
             exclSystem = orDefault (excludeSystemNamespaces input) False;
             mode = orDefault (searchMode input) ''auto'';
             tolerance = orDefault (fuzzyTolerance input) ''moderate'';
             lmt = orDefault (limit input) 20;
             inclLabels = orDefault (includeLabels input) True;
             inclAnnotations = orDefault (includeAnnotations input) False;
             sortKey = orDefault (sortBy_field input) ''relevance'';
             outp = orDefault (output_field input) ''detailed'';
             rcnt = orDefault (recent input) False
         in
         case getTargetNamespaces e (namespaces input) (namespacePattern input) exclSystem
                (Some q) None of
           Inl err \<Rightarrow> Inl (''Search failed: '' @ err)
         | Inr targetNamespaces \<Rightarrow>
             if length targetNamespaces = 0
             then Inr (formatSearchResults [] outp q ''No namespaces to search'')
             else
               (let strat = determineSearchStrategy q mode;
                    searchConfig = getFuzzyConfig tolerance;
                    results = streamingSearch e rtypes targetNamespaces q strat searchConfig
                                inclLabels inclAnnotations rcnt lmt;
                    sortedResults = sortResults e results sortKey
                in Inr (formatSearchResults sortedResults outp q (type strat)))))"

subsection \<open>A fragment of the regular expressions\<close>

text \<open>
  The regular expressions whose source is a sequence of literal characters, escaped
  characters and dots, each with or without a star, under the flag \<^verbatim>\<open>i\<close>. The function
  \<open>regExpFragment\<close> is \<^verbatim>\<open>new RegExp(src, 'i')\<close> on these sources; on every other source
  it gives \<open>Inl\<close> and says nothing about JavaScript. It serves to run the search on
  concrete patterns.
\<close>

datatype atom = Lit char | AnyChar

text \<open>
  The characters with a meaning of their own in a pattern, by their codes:
  \<^verbatim>\<open>* ? | ( ) [ ] { } + ^ $\<close>; an escape may also quote the dot, the slash,
  the hyphen and the backslash.
\<close>

definition isOperator :: "char \<Rightarrow> bool" where
  "isOperator c = ((of_char c :: nat) \<in> {42, 63, 124, 40, 41, 91, 93, 123, 125, 43, 94, 36})"

definition isEscapable :: "char \<Rightarrow> bool" where
  "isEscapable c = (isOperator c \<or> (of_char c :: nat) \<in> {46, 47, 45, 92})"

fun parseRegex :: "string \<Rightarrow> (atom \<times> bool) list option" where
  "parseRegex [] = Some []"
| "parseRegex (c # s) =
     (if c = char_of (92::nat) then
        (case s of
           [] \<Rightarrow> None
         | d # s' \<Rightarrow>
            (if isEscapable d then
               (case s' of
                  x # s'' \<Rightarrow> if x = CHR ''*''
                     then map_option (\<lambda>items. (Lit d, True) # items) (parseRegex s'')
                     else map_option (\<lambda>items. (Lit d, False) # items) (parseRegex s')
                | [] \<Rightarrow> Some [(Lit d, False)])
             else None))
      else if isOperator c then None
      else
        (let a = (if c = CHR ''.'' then AnyChar else Lit c) in
         case s of
           x # s' \<Rightarrow> if x = CHR ''*''
              then map_option (\<lambda>items. (a, True) # items) (parseRegex s')
              else map_option (\<lambda>items. (a, False) # items) (parseRegex s)
         | [] \<Rightarrow> Some [(a, False)]))"

fun atomMatches :: "atom \<Rightarrow> char \<Rightarrow> bool" where
  "atomMatches (Lit c) d = (toLowerCase [c] = toLowerCase [d])"
| "atomMatches AnyChar d = (d \<noteq> char_of (10::nat) \<and> d \<noteq> char_of (13::nat))"

fun matchHere :: "(atom \<times> bool) list \<Rightarrow> string \<Rightarrow> bool" where
  "matchHere [] s = True"
| "matchHere ((a, False) # items) [] = False"
| "matchHere ((a, False) # items) (c # s) = (atomMatches a c \<and> matchHere items s)"
| "matchHere ((a, True) # items) [] = matchHere items []"
| "matchHere ((a, True) # items) (c # s) =
     (matchHere items (c # s) \<or> (atomMatches a c \<and> matchHere ((a, True) # items) s))"

fun matchAnywhere :: "(atom \<times> bool) list \<Rightarrow> string \<Rightarrow> bool" where
  "matchAnywhere items [] = matchHere items []"
| "matchAnywhere items (c # s) = (matchHere items (c # s) \<or> matchAnywhere items s)"

definition regExpFragment :: "string \<Rightarrow> string + (string \<Rightarrow> bool)" where
  "regExpFragment src =
     (case parseRegex src of
        None \<Rightarrow> Inl ''SyntaxError: outside the fragment''
      | Some items \<Rightarrow> Inr (matchAnywhere items))"

subsection \<open>The invariant of the matrix\<close>

text \<open>
  \<open>target\<close> is the value that the cell of row \<open>j\<close> and column \<open>i\<close> must hold;
  \<open>filled m J I\<close> says that the borders, the rows before \<open>J\<close> and the cells of row \<open>J\<close>
  before column \<open>I\<close> hold it.
\<close>

definition target :: "string \<Rightarrow> string \<Rightarrow> nat \<Rightarrow> nat \<Rightarrow> nat" where
  "target str1 str2 j i = lev (rev (take i str1)) (rev (take j str2))"

definition shaped :: "string \<Rightarrow> string \<Rightarrow> nat list list \<Rightarrow> bool" where
  "shaped str1 str2 m =
     (length m = length str2 + 1 \<and> (\<forall>j \<le> length str2. length (m ! j) = length str1 + 1))"

definition filled :: "string \<Rightarrow> string \<Rightarrow> nat list list \<Rightarrow> nat \<Rightarrow> nat \<Rightarrow> bool" where
  "filled str1 str2 m J I =
     (shaped str1 str2 m \<and>
      (\<forall>j i. j \<le> length str2 \<and> i \<le> length str1 \<and> (j = 0 \<or> i = 0 \<or> j < J \<or> (j = J \<and> i < I))
         \<longrightarrow> cell m j i = target str1 str2 j i))"

subsection \<open>A small cluster\<close>

text \<open>
  A cluster to run the search on: two namespaces; three pods in \<open>ns1\<close>; the listing of
  the jobs of \<open>ns1\<close> fails and \<open>ns2\<close> has one job; every other listing is empty.
\<close>

fun codeUnitCompare :: "string \<Rightarrow> string \<Rightarrow> int" where
  "codeUnitCompare [] [] = 0"
| "codeUnitCompare [] (y # ys) = - 1"
| "codeUnitCompare (x # xs) [] = 1"
| "codeUnitCompare (x # xs) (y # ys) =
     (if (of_char x :: nat) < of_char y then - 1
      else if (of_char y :: nat) < of_char x then 1
      else codeUnitCompare xs ys)"

definition named :: "string \<Rightarrow> resource" where
  "named n = \<lparr>name = n, labels = None, creationTimestamp = 0, fieldText = []\<rparr>"

definition demoEnv :: env where
  "demoEnv =
     \<lparr>regExp = regExpFragment,
      localeCompare = codeUnitCompare,
      execText = (\<lambda>cmd. if cmd = ''kubectl get namespaces -o name''
                         then Inr (''namespace/ns1'' @ [char_of (10::nat)] @
                                   ''namespace/ns2'' @ [char_of (10::nat)])
                         else Inl ''Error: Command failed''),
      execJson = (\<lambda>k cmd.
         if cmd = ''kubectl get pods -n ns1 -o json''
         then Inr (Some [named ''webapp-1'', named ''my-webapp-svc'', named ''backend''])
         else if cmd = ''kubectl get jobs -n ns1 -o json''
         then Inl ''Error: Command failed''
         else if cmd = ''kubectl get jobs -n ns2 -o json''
         then Inr (Some [named ''web-job''])
         else Inr (Some []))\<rparr>"

text \<open>
  The same cluster in an outage: every listing fails but the one of the services of
  \<open>ns2\<close>, which has one service.
\<close>

definition outageEnv :: env where
  "outageEnv =
     demoEnv\<lparr>execJson := (\<lambda>k cmd.
        if cmd = ''kubectl get services -n ns2 -o json''
        then Inr (Some [named ''web-svc''])
        else Inl ''Error: Command failed'')\<rparr>"

text \<open>The input that gives the query only.\<close>

definition queryOnly :: "string \<Rightarrow> search_input" where
  "queryOnly q =
     \<lparr>query = q, resourceTypes = None, namespaces = None, namespacePattern = None,
      excludeSystemNamespaces = None, searchMode = None, fuzzyTolerance = None,
      limit = None, includeLabels = None, includeAnnotations = None,
      sortBy_field = None, output_field = None, recent = None\<rparr>"

text \<open>A result of the quick scan.\<close>

definition quickHit :: "resource \<Rightarrow> string \<Rightarrow> string \<Rightarrow> SearchResult" where
  "quickHit r rtype ns =
     \<lparr>resource = r, resourceType = rtype, namespace = ns, matchScore = 1,
      matchReason = ''exact substring match in name'', levenshteinDistance_field = 0\<rparr>"

text \<open>
  The environment in which every listing call that throws gives the empty list instead.
\<close>

definition silenced :: "env \<Rightarrow> env" where
  "silenced e =
     e\<lparr>execJson := (\<lambda>k cmd. case execJson e k cmd of Inl err \<Rightarrow> Inr (Some []) | Inr r \<Rightarrow> Inr r)\<rparr>"

section \<open>Properties\<close>

subsection \<open>Strings\<close>

lemma startsWith_iff: "startsWith s p \<longleftrightarrow> (\<exists>post. s = p @ post)"
  by (induction s p rule: startsWith.induct) auto

lemma includesStr_iff: "includesStr s sub \<longleftrightarrow> (\<exists>pre post. s = pre @ sub @ post)"
proof (induction s)
  case Nil
  then show ?case by auto
next
  case (Cons c s)
  show ?case
  proof
    assume "includesStr (c # s) sub"
    then consider "startsWith (c # s) sub" | "includesStr s sub" by auto
    then show "\<exists>pre post. c # s = pre @ sub @ post"
    proof cases
      case 1
      then obtain post where "c # s = sub @ post" by (auto simp: startsWith_iff)
      then have "c # s = [] @ sub @ post" by simp
      then show ?thesis by blast
    next
      case 2
      then obtain pre post where "s = pre @ sub @ post" using Cons.IH by auto
      then have "c # s = (c # pre) @ sub @ post" by simp
      then show ?thesis by blast
    qed
  next
    assume "\<exists>pre post. c # s = pre @ sub @ post"
    then obtain pre post where e: "c # s = pre @ sub @ post" by auto
    show "includesStr (c # s) sub"
    proof (cases pre)
      case Nil
      with e have "c # s = sub @ post" by simp
      then have "startsWith (c # s) sub" unfolding startsWith_iff by (rule exI)
      then show ?thesis by simp
    next
      case (Cons a pre')
      then have "s = pre' @ sub @ post" using e by simp
      then show ?thesis using Cons.IH by auto
    qed
  qed
qed

lemma includesStr_char: "includesStr s [c] \<longleftrightarrow> c \<in> set s"
  by (induction s) auto

subsection \<open>Edit distance\<close>

lemma shaped_setCell:
  "shaped str1 str2 m \<Longrightarrow> j \<le> length str2 \<Longrightarrow> shaped str1 str2 (setCell m j i v)"
  by (auto simp: shaped_def setCell_def nth_list_update)

lemma cell_setCell:
  "shaped str1 str2 m \<Longrightarrow> j \<le> length str2 \<Longrightarrow> i \<le> length str1 \<Longrightarrow>
   j' \<le> length str2 \<Longrightarrow> i' \<le> length str1 \<Longrightarrow>
   cell (setCell m j i v) j' i' = (if j' = j \<and> i' = i then v else cell m j' i')"
  by (auto simp: shaped_def setCell_def cell_def nth_list_update)

lemma lev_Nil2: "lev xs [] = length xs"
  by (cases xs) auto

lemma lev_sym: "lev xs ys = lev ys xs"
  by (induction xs ys rule: lev.induct) (auto simp: lev_Nil2 min.commute min.left_commute)

lemma lev_refl: "lev xs xs = 0"
  by (induction xs) auto

lemma filledD:
  "filled str1 str2 m J I \<Longrightarrow> j \<le> length str2 \<Longrightarrow> i \<le> length str1 \<Longrightarrow>
   j = 0 \<or> i = 0 \<or> j < J \<or> (j = J \<and> i < I) \<Longrightarrow> cell m j i = target str1 str2 j i"
  unfolding filled_def by blast

lemma fold_upt_Suc1: "fold f [1..<Suc (Suc k)] m = f (Suc k) (fold f [1..<Suc k] m)"
  by simp

lemma target_step:
  assumes "1 \<le> j" "j \<le> length str2" "1 \<le> i" "i \<le> length str1"
  shows "target str1 str2 j i =
         min (min (target str1 str2 j (i - 1) + 1) (target str1 str2 (j - 1) i + 1))
             (target str1 str2 (j - 1) (i - 1) + (if str1 ! (i - 1) = str2 ! (j - 1) then 0 else 1))"
proof -
  obtain i' where i': "i = Suc i'" using assms by (cases i) auto
  obtain j' where j': "j = Suc j'" using assms by (cases j) auto
  have a: "rev (take i str1) = str1 ! i' # rev (take i' str1)"
    using assms i' by (simp add: take_Suc_conv_app_nth)
  have b: "rev (take j str2) = str2 ! j' # rev (take j' str2)"
    using assms j' by (simp add: take_Suc_conv_app_nth)
  show ?thesis
    unfolding target_def a b using i' j' a b by simp
qed

lemma filled_levCell:
  assumes "filled str1 str2 m J I" "1 \<le> J" "J \<le> length str2" "1 \<le> I" "I \<le> length str1"
  shows "filled str1 str2 (levCell str1 str2 J m I) J (Suc I)"
proof -
  have sh: "shaped str1 str2 m" using assms by (simp add: filled_def)
  have c1: "cell m J (I - 1) = target str1 str2 J (I - 1)"
    by (rule filledD[OF assms(1)]) (use assms in auto)
  have c2: "cell m (J - 1) I = target str1 str2 (J - 1) I"
    by (rule filledD[OF assms(1)]) (use assms in auto)
  have c3: "cell m (J - 1) (I - 1) = target str1 str2 (J - 1) (I - 1)"
    by (rule filledD[OF assms(1)]) (use assms in auto)
  have v: "levCell str1 str2 J m I = setCell m J I (target str1 str2 J I)"
    unfolding levCell_def Let_def c1 c2 c3 using target_step[OF assms(2-5)] by simp
  show ?thesis
    unfolding v filled_def
  proof (intro conjI allI impI)
    show "shaped str1 str2 (setCell m J I (target str1 str2 J I))"
      using sh assms by (simp add: shaped_setCell)
  next
    fix j i
    assume h: "j \<le> length str2 \<and> i \<le> length str1 \<and> (j = 0 \<or> i = 0 \<or> j < J \<or> j = J \<and> i < Suc I)"
    then have "cell (setCell m J I (target str1 str2 J I)) j i =
               (if j = J \<and> i = I then target str1 str2 J I else cell m j i)"
      using sh assms by (simp add: cell_setCell)
    moreover have "cell m j i = target str1 str2 j i" if "\<not> (j = J \<and> i = I)"
      by (rule filledD[OF assms(1)]) (use h that in auto)
    ultimately show "cell (setCell m J I (target str1 str2 J I)) j i = target str1 str2 j i"
      by auto
  qed
qed

lemma filled_row:
  assumes "filled str1 str2 m J 1" "1 \<le> J" "J \<le> length str2"
  shows "k \<le> length str1 \<Longrightarrow>
         filled str1 str2 (fold (\<lambda>i m. levCell str1 str2 J m i) [1..<Suc k] m) J (Suc k)"
proof (induction k)
  case 0
  then show ?case using assms by simp
next
  case (Suc k)
  then have ih: "filled str1 str2 (fold (\<lambda>i m. levCell str1 str2 J m i) [1..<Suc k] m) J (Suc k)"
    by simp
  have "filled str1 str2
          (levCell str1 str2 J (fold (\<lambda>i m. levCell str1 str2 J m i) [1..<Suc k] m) (Suc k))
          J (Suc (Suc k))"
    by (rule filled_levCell[OF ih assms(2,3)]) (use Suc.prems in auto)
  then show ?case
    by (simp only: fold_upt_Suc1)
qed

lemma filled_next_row:
  assumes "filled str1 str2 m J (Suc (length str1))"
  shows "filled str1 str2 m (Suc J) 1"
  unfolding filled_def
proof (intro conjI allI impI)
  show "shaped str1 str2 m" using assms by (simp add: filled_def)
next
  fix j i
  assume h: "j \<le> length str2 \<and> i \<le> length str1 \<and> (j = 0 \<or> i = 0 \<or> j < Suc J \<or> j = Suc J \<and> i < 1)"
  show "cell m j i = target str1 str2 j i"
    by (rule filledD[OF assms]) (use h in auto)
qed

lemma filled_rows:
  assumes "filled str1 str2 m 1 1"
  shows "k \<le> length str2 \<Longrightarrow>
         filled str1 str2
           (fold (\<lambda>j m. fold (\<lambda>i m. levCell str1 str2 j m i) [1..<Suc (length str1)] m) [1..<Suc k] m)
           (Suc k) 1"
proof (induction k)
  case 0
  then show ?case using assms by simp
next
  case (Suc k)
  let ?row = "\<lambda>j m. fold (\<lambda>i m. levCell str1 str2 j m i) [1..<Suc (length str1)] m"
  from Suc have ih: "filled str1 str2 (fold ?row [1..<Suc k] m) (Suc k) 1" by simp
  have "filled str1 str2 (?row (Suc k) (fold ?row [1..<Suc k] m)) (Suc k) (Suc (length str1))"
    by (rule filled_row[OF ih]) (use Suc.prems in auto)
  then have "filled str1 str2 (?row (Suc k) (fold ?row [1..<Suc k] m)) (Suc (Suc k)) 1"
    by (rule filled_next_row)
  then show ?case
    by (simp only: fold_upt_Suc1)
qed

lemma first_row:
  "shaped str1 str2 m \<Longrightarrow> k \<le> Suc (length str1) \<Longrightarrow>
   shaped str1 str2 (fold (\<lambda>i m. setCell m 0 i i) [0..<k] m) \<and>
   (\<forall>j i. j \<le> length str2 \<and> i \<le> length str1 \<longrightarrow>
      cell (fold (\<lambda>i m. setCell m 0 i i) [0..<k] m) j i = (if j = 0 \<and> i < k then i else cell m j i))"
proof (induction k)
  case 0
  then show ?case by simp
next
  case (Suc k)
  then show ?case
    by (auto simp: shaped_setCell cell_setCell)
qed

lemma first_column:
  "shaped str1 str2 m \<Longrightarrow> k \<le> Suc (length str2) \<Longrightarrow>
   shaped str1 str2 (fold (\<lambda>j m. setCell m j 0 j) [0..<k] m) \<and>
   (\<forall>j i. j \<le> length str2 \<and> i \<le> length str1 \<longrightarrow>
      cell (fold (\<lambda>j m. setCell m j 0 j) [0..<k] m) j i = (if i = 0 \<and> j < k then j else cell m j i))"
proof (induction k)
  case 0
  then show ?case by simp
next
  case (Suc k)
  then show ?case
    by (auto simp: shaped_setCell cell_setCell)
qed

lemma shaped_replicate:
  "shaped str1 str2 (replicate (Suc (length str2)) (replicate (Suc (length str1)) 0))"
  unfolding shaped_def by (auto simp del: replicate.simps)

lemma target_border:
  "i \<le> length str1 \<Longrightarrow> target str1 str2 0 i = i"
  "j \<le> length str2 \<Longrightarrow> target str1 str2 j 0 = j"
  by (simp_all add: target_def lev_Nil2)

lemma filled_border:
  "filled str1 str2
     (fold (\<lambda>j m. setCell m j 0 j) [0..<Suc (length str2)]
        (fold (\<lambda>i m. setCell m 0 i i) [0..<Suc (length str1)]
           (replicate (Suc (length str2)) (replicate (Suc (length str1)) 0)))) 1 1"
proof -
  let ?m0 = "replicate (Suc (length str2)) (replicate (Suc (length str1)) (0::nat))"
  let ?m1 = "fold (\<lambda>i m. setCell m 0 i i) [0..<Suc (length str1)] ?m0"
  let ?m2 = "fold (\<lambda>j m. setCell m j 0 j) [0..<Suc (length str2)] ?m1"
  have r: "shaped str1 str2 ?m1 \<and>
      (\<forall>j i. j \<le> length str2 \<and> i \<le> length str1 \<longrightarrow>
         cell ?m1 j i = (if j = 0 \<and> i < Suc (length str1) then i else cell ?m0 j i))"
    by (rule first_row[OF shaped_replicate]) simp
  have c: "shaped str1 str2 ?m2 \<and>
      (\<forall>j i. j \<le> length str2 \<and> i \<le> length str1 \<longrightarrow>
         cell ?m2 j i = (if i = 0 \<and> j < Suc (length str2) then j else cell ?m1 j i))"
    by (rule first_column) (use r in simp_all)
  show ?thesis
    unfolding filled_def
  proof (intro conjI allI impI)
    show "shaped str1 str2 ?m2" using c by blast
  next
    fix j i
    assume h: "j \<le> length str2 \<and> i \<le> length str1 \<and> (j = 0 \<or> i = 0 \<or> j < 1 \<or> j = 1 \<and> i < 1)"
    then have b: "j = 0 \<or> i = 0" by auto
    have c2: "cell ?m2 j i = (if i = 0 \<and> j < Suc (length str2) then j else cell ?m1 j i)"
      using c h by blast
    have r2: "cell ?m1 j i = (if j = 0 \<and> i < Suc (length str1) then i else cell ?m0 j i)"
      using r h by blast
    show "cell ?m2 j i = target str1 str2 j i"
      unfolding c2 r2 using h b by (auto simp: target_border)
  qed
qed

lemma levenshteinDistance_lev:
  "levenshteinDistance str1 str2 = lev (rev str1) (rev str2)"
proof -
  let ?m2 = "fold (\<lambda>j m. setCell m j 0 j) [0..<Suc (length str2)]
        (fold (\<lambda>i m. setCell m 0 i i) [0..<Suc (length str1)]
           (replicate (Suc (length str2)) (replicate (Suc (length str1)) 0)))"
  let ?m3 = "fold (\<lambda>j m. fold (\<lambda>i m. levCell str1 str2 j m i) [1..<Suc (length str1)] m)
                      [1..<Suc (length str2)] ?m2"
  have "filled str1 str2 ?m3 (Suc (length str2)) 1"
    by (rule filled_rows[OF filled_border]) simp
  then have "cell ?m3 (length str2) (length str1) = target str1 str2 (length str2) (length str1)"
    by (rule filledD) auto
  moreover have "levenshteinDistance str1 str2 = cell ?m3 (length str2) (length str1)"
    by (simp only: levenshteinDistance_def Let_def Suc_eq_plus1)
  ultimately show ?thesis
    by (simp add: target_def)
qed

text \<open>
  Claim C10. The distance of a string to itself is 0, the distance of the empty string
  to a string is the length of that string, and the distance is symmetric.
\<close>

theorem levenshteinDistance_laws:
  "levenshteinDistance s s = 0 \<and> levenshteinDistance [] s = length s \<and>
   levenshteinDistance a b = levenshteinDistance b a"
  using lev_sym[of "rev a" "rev b"] by (simp add: levenshteinDistance_lev lev_refl)

subsection \<open>Strategy selection\<close>

text \<open>
  Claim C6. With the mode \<open>auto\<close>: a query with \<open>=\<close> and one of \<open>metadata.\<close>,
  \<open>status.\<close>, \<open>spec.\<close> gives the strategy fields; a query with \<open>=\<close> and none of them
  gives labels; a query with \<open>*\<close> or \<open>?\<close> and no \<open>=\<close> gives exact; a query with none
  of the three characters gives fuzzy. The selector is the query in each case.
\<close>

theorem determineSearchStrategy_auto:
  "(CHR ''='' \<in> set q \<and>
      (includesStr q ''metadata.'' \<or> includesStr q ''status.'' \<or> includesStr q ''spec.'')
      \<longrightarrow> determineSearchStrategy q ''auto'' = \<lparr>type = ''fields'', selector = q\<rparr>) \<and>
   (CHR ''='' \<in> set q \<and>
      \<not> (includesStr q ''metadata.'' \<or> includesStr q ''status.'' \<or> includesStr q ''spec.'')
      \<longrightarrow> determineSearchStrategy q ''auto'' = \<lparr>type = ''labels'', selector = q\<rparr>) \<and>
   ((CHR ''*'' \<in> set q \<or> CHR ''?'' \<in> set q) \<and> CHR ''='' \<notin> set q
      \<longrightarrow> determineSearchStrategy q ''auto'' = \<lparr>type = ''exact'', selector = q\<rparr>) \<and>
   (CHR ''='' \<notin> set q \<and> CHR ''*'' \<notin> set q \<and> CHR ''?'' \<notin> set q
      \<longrightarrow> determineSearchStrategy q ''auto'' = \<lparr>type = ''fuzzy'', selector = q\<rparr>)"
  by (simp add: determineSearchStrategy_def includesStr_char)

theorem determineSearchStrategy_auto_witness:
  "determineSearchStrategy ''metadata.name=web'' ''auto'' =
     \<lparr>type = ''fields'', selector = ''metadata.name=web''\<rparr> \<and>
   determineSearchStrategy ''app=web'' ''auto'' = \<lparr>type = ''labels'', selector = ''app=web''\<rparr> \<and>
   determineSearchStrategy ''web*'' ''auto'' = \<lparr>type = ''exact'', selector = ''web*''\<rparr> \<and>
   determineSearchStrategy ''webapp'' ''auto'' = \<lparr>type = ''fuzzy'', selector = ''webapp''\<rparr>"
proof -
  have a: "CHR ''='' \<in> set ''metadata.name=web'' \<and>
      (includesStr ''metadata.name=web'' ''metadata.'' \<or> includesStr ''metadata.name=web'' ''status.'' \<or>
       includesStr ''metadata.name=web'' ''spec.'')" by simp
  have b: "CHR ''='' \<in> set ''app=web'' \<and>
      \<not> (includesStr ''app=web'' ''metadata.'' \<or> includesStr ''app=web'' ''status.'' \<or>
       includesStr ''app=web'' ''spec.'')" by simp
  have c: "(CHR ''*'' \<in> set ''web*'' \<or> CHR ''?'' \<in> set ''web*'') \<and> CHR ''='' \<notin> set ''web*''" by simp
  have d: "CHR ''='' \<notin> set ''webapp'' \<and> CHR ''*'' \<notin> set ''webapp'' \<and> CHR ''?'' \<notin> set ''webapp''" by simp
  note w1 = determineSearchStrategy_auto[of "''metadata.name=web''", THEN conjunct1, THEN mp, OF a]
  note w2 = determineSearchStrategy_auto[of "''app=web''", THEN conjunct2, THEN conjunct1, THEN mp, OF b]
  note w3 = determineSearchStrategy_auto[of "''web*''", THEN conjunct2, THEN conjunct2, THEN conjunct1,
              THEN mp, OF c]
  note w4 = determineSearchStrategy_auto[of "''webapp''", THEN conjunct2, THEN conjunct2, THEN conjunct2,
              THEN mp, OF d]
  show ?thesis
    by (intro conjI) (rule w1 w2 w3 w4)+
qed

subsection \<open>Namespace resolution\<close>

text \<open>
  Claim C9, amended. An explicit namespace set that is not empty is returned as it is,
  cut to \<open>slice 0 maxNamespaces\<close> when a bound other than 0 is given; the environment,
  the pattern and the exclusion of the system namespaces play no part.
\<close>

theorem getTargetNamespaces_explicit:
  "l \<noteq> [] \<Longrightarrow>
   getTargetNamespaces e (Some l) nsPattern exclSystem q maxNamespaces =
     Inr (case maxNamespaces of None \<Rightarrow> l | Some n \<Rightarrow> if n \<noteq> 0 then slice l 0 n else l)"
  by (simp add: getTargetNamespaces_def applyMaxNamespaces_def)

theorem getTargetNamespaces_explicit_witness:
  "[''kube-system'', ''default''] \<noteq> [] \<and>
   getTargetNamespaces demoEnv (Some [''kube-system'', ''default'']) (Some ''app-*'') True None None =
     Inr [''kube-system'', ''default'']"
proof -
  have h: "[''kube-system'', ''default''] \<noteq> []" by simp
  have "getTargetNamespaces demoEnv (Some [''kube-system'', ''default'']) (Some ''app-*'') True None None =
     Inr (case None of None \<Rightarrow> [''kube-system'', ''default'']
          | Some n \<Rightarrow> if n \<noteq> 0 then slice [''kube-system'', ''default''] 0 n
                     else [''kube-system'', ''default''])"
    by (rule getTargetNamespaces_explicit[OF h])
  then show ?thesis using h by simp
qed

text \<open>
  Claim C9 as stated fails for the empty set: it is not returned, the namespaces are
  discovered.
\<close>

theorem getTargetNamespaces_empty_set_discovers:
  "getTargetNamespaces demoEnv (Some []) None False None None = Inr [''ns1'', ''ns2''] \<and>
   getTargetNamespaces demoEnv (Some []) None False None None \<noteq> Inr []"
proof -
  have "getTargetNamespaces demoEnv (Some []) None False None None = Inr [''ns1'', ''ns2'']"
    by code_simp
  then show ?thesis by simp
qed

subsection \<open>Length\<close>

lemma length_insertBy: "length (insertBy compare x ys) = Suc (length ys)"
  by (induction ys) auto

lemma length_sortBy: "length (sortBy compare xs) = length xs"
  by (induction xs) (auto simp: sortBy_def length_insertBy)

lemma length_sortResults: "length (sortResults e results sortKey) = length results"
  by (simp add: sortResults_def length_sortBy)

lemma length_slice: "0 \<le> n \<Longrightarrow> length (slice xs 0 n) \<le> nat n"
  by (simp add: slice_def Let_def)

lemma typeLoop_no_budget:
  "lmt \<le> 0 \<Longrightarrow>
   typeLoop e rtypes nss q strat searchConfig inclLabels inclAnnotations lmt ([], k) = ([], k)"
  by (cases rtypes) simp_all

lemma length_streamingSearch:
  "length (streamingSearch e rtypes nss q strat searchConfig inclLabels inclAnnotations rcnt lmt)
     \<le> nat lmt"
proof (cases "0 \<le> lmt")
  case True
  then show ?thesis
    by (simp add: streamingSearch_def Let_def length_slice)
next
  case False
  then show ?thesis
    by (simp add: streamingSearch_def Let_def typeLoop_no_budget slice_def)
qed

text \<open>
  Claim C1. Whatever the input and whatever the listing calls return, a search that
  returns its matches returns at most \<open>limit\<close> of them (20 when no limit is given). For
  a negative limit the bound is 0: the search returns no match.
\<close>

theorem result_length_le_limit:
  assumes "kubectlUnifiedSearch e input = Inr out"
  shows "length (shown out) \<le> nat (orDefault (limit input) 20)"
proof (cases "getTargetNamespaces e (namespaces input) (namespacePattern input)
                (orDefault (excludeSystemNamespaces input) False) (Some (query input)) None")
  case (Inl err)
  then show ?thesis
    using assms by (simp add: kubectlUnifiedSearch_def Let_def split: if_splits)
next
  case (Inr targetNamespaces)
  show ?thesis
  proof (cases "length targetNamespaces = 0")
    case True
    then have "shown out = []"
      using assms Inr
      by (auto simp: kubectlUnifiedSearch_def Let_def formatSearchResults_def split: if_splits)
    then show ?thesis by simp
  next
    case False
    then have "shown out =
        sortResults e
          (streamingSearch e
             (orDefault (resourceTypes input) [''pods'', ''deployments'', ''services''])
             targetNamespaces (query input)
             (determineSearchStrategy (query input) (orDefault (searchMode input) ''auto''))
             (getFuzzyConfig (orDefault (fuzzyTolerance input) ''moderate''))
             (orDefault (includeLabels input) True)
             (orDefault (includeAnnotations input) False)
             (orDefault (recent input) False)
             (orDefault (limit input) 20))
          (orDefault (sortBy_field input) ''relevance'')"
      using assms Inr
      by (auto simp: kubectlUnifiedSearch_def Let_def formatSearchResults_def split: if_splits)
    then show ?thesis
      by (simp add: length_sortResults length_streamingSearch)
  qed
qed

theorem result_length_le_limit_witness:
  "kubectlUnifiedSearch demoEnv ((queryOnly ''web'')\<lparr>limit := Some 1\<rparr>) =
     Inr \<lparr>shown = [quickHit (named ''webapp-1'') ''pods'' ''ns1''], searchType = ''fuzzy''\<rparr> \<and>
   length (shown \<lparr>shown = [quickHit (named ''webapp-1'') ''pods'' ''ns1''], searchType = ''fuzzy''\<rparr>)
     \<le> nat (orDefault (limit ((queryOnly ''web'')\<lparr>limit := Some 1\<rparr>)) 20)"
proof -
  have h: "kubectlUnifiedSearch demoEnv ((queryOnly ''web'')\<lparr>limit := Some 1\<rparr>) =
     Inr \<lparr>shown = [quickHit (named ''webapp-1'') ''pods'' ''ns1''], searchType = ''fuzzy''\<rparr>"
    by code_simp
  show ?thesis
    by (rule conjI[OF h result_length_le_limit[OF h]])
qed

subsection \<open>Fatal errors\<close>

lemma getTargetNamespaces_fails:
  "getTargetNamespaces e nss nsPattern exclSystem q maxNamespaces = Inl msg \<longleftrightarrow>
     (nss = None \<or> nss = Some []) \<and>
     ((\<exists>err. execText e ''kubectl get namespaces -o name'' = Inl err \<and>
             msg = ''Failed to get namespaces: '' @ err) \<or>
      (\<exists>stdout p err. execText e ''kubectl get namespaces -o name'' = Inr stdout \<and>
             nsPattern = Some p \<and> p \<noteq> [] \<and> regExp e (wildcardRegexSource p) = Inl err \<and>
             msg = ''Failed to get namespaces: '' @ err))"
  unfolding getTargetNamespaces_def Let_def
  by (cases nss; cases nsPattern;
      cases "execText e ''kubectl get namespaces -o name''";
      auto split: sum.splits)

lemma kubectlUnifiedSearch_blank:
  "query input = [] \<or> trim (query input) = [] \<Longrightarrow>
   kubectlUnifiedSearch e input = Inl ''Search query cannot be empty''"
  by (auto simp: kubectlUnifiedSearch_def)

lemma kubectlUnifiedSearch_not_blank:
  "\<not> (query input = [] \<or> trim (query input) = []) \<Longrightarrow>
   kubectlUnifiedSearch e input = Inl msg \<longleftrightarrow>
     (\<exists>err. getTargetNamespaces e (namespaces input) (namespacePattern input)
              (orDefault (excludeSystemNamespaces input) False) (Some (query input)) None = Inl err \<and>
            msg = ''Search failed: '' @ err)"
  by (auto simp: kubectlUnifiedSearch_def Let_def split: sum.splits)

lemma kubectlUnifiedSearch_fails:
  "kubectlUnifiedSearch e input = Inl msg \<longleftrightarrow>
     ((query input = [] \<or> trim (query input) = []) \<and> msg = ''Search query cannot be empty'') \<or>
     (\<not> (query input = [] \<or> trim (query input) = []) \<and>
      (namespaces input = None \<or> namespaces input = Some []) \<and>
      ((\<exists>err. execText e ''kubectl get namespaces -o name'' = Inl err \<and>
              msg = ''Search failed: Failed to get namespaces: '' @ err) \<or>
       (\<exists>stdout p err. execText e ''kubectl get namespaces -o name'' = Inr stdout \<and>
              namespacePattern input = Some p \<and> p \<noteq> [] \<and>
              regExp e (wildcardRegexSource p) = Inl err \<and>
              msg = ''Search failed: Failed to get namespaces: '' @ err)))"
proof (cases "query input = [] \<or> trim (query input) = []")
  case True
  then show ?thesis
    using kubectlUnifiedSearch_blank[OF True, of e] by auto
next
  case False
  show ?thesis
    unfolding kubectlUnifiedSearch_not_blank[OF False] getTargetNamespaces_fails
    using False by auto
qed

text \<open>
  Claim C7, amended. The search throws in these cases and in no other. (1) The query is
  empty or white space: the error is \<open>Search query cannot be empty\<close>, thrown before
  the handler that wraps errors and whatever the environment is. (2) No namespace set or
  the empty one is given, and the listing of the namespaces fails or the namespace
  pattern compiles to a source that \<^verbatim>\<open>RegExp\<close> rejects: the error is the cause wrapped as
  \<open>Search failed: Failed to get namespaces: cause\<close>. An error carries no match.
\<close>

theorem search_fails_iff:
  "kubectlUnifiedSearch e input = Inl msg \<longleftrightarrow>
     ((query input = [] \<or> trim (query input) = []) \<and> msg = ''Search query cannot be empty'') \<or>
     (\<not> (query input = [] \<or> trim (query input) = []) \<and>
      (namespaces input = None \<or> namespaces input = Some []) \<and>
      ((\<exists>err. execText e ''kubectl get namespaces -o name'' = Inl err \<and>
              msg = ''Search failed: Failed to get namespaces: '' @ err) \<or>
       (\<exists>stdout p err. execText e ''kubectl get namespaces -o name'' = Inr stdout \<and>
              namespacePattern input = Some p \<and> p \<noteq> [] \<and>
              regExp e (wildcardRegexSource p) = Inl err \<and>
              msg = ''Search failed: Failed to get namespaces: '' @ err)))"
  by (rule kubectlUnifiedSearch_fails)

theorem search_fails_iff_witness:
  "kubectlUnifiedSearch (demoEnv\<lparr>execText := (\<lambda>cmd. Inl ''Error: Command failed'')\<rparr>)
     (queryOnly ''web'') =
     Inl (''Search failed: Failed to get namespaces: '' @ ''Error: Command failed'') \<and>
   kubectlUnifiedSearch demoEnv (queryOnly ''  '') = Inl ''Search query cannot be empty'' \<and>
   kubectlUnifiedSearch demoEnv (queryOnly [char_of (160::nat), char_of (9::nat)]) =
     Inl ''Search query cannot be empty''"
proof -
  let ?e = "demoEnv\<lparr>execText := (\<lambda>cmd. Inl ''Error: Command failed'')\<rparr>"
  have 1: "\<not> (query (queryOnly ''web'') = [] \<or> trim (query (queryOnly ''web'')) = [])"
    by code_simp
  have 2: "namespaces (queryOnly ''web'') = None \<or> namespaces (queryOnly ''web'') = Some []"
    by (simp add: queryOnly_def)
  have 3: "execText ?e ''kubectl get namespaces -o name'' = Inl ''Error: Command failed''"
    by simp
  have a: "kubectlUnifiedSearch ?e (queryOnly ''web'') =
             Inl (''Search failed: Failed to get namespaces: '' @ ''Error: Command failed'')"
    by (rule search_fails_iff[THEN iffD2], rule disjI2, rule conjI[OF 1], rule conjI[OF 2],
        rule disjI1, rule exI[of _ "''Error: Command failed''"], rule conjI[OF 3 refl])
  have 4: "query (queryOnly ''  '') = [] \<or> trim (query (queryOnly ''  '')) = []"
    by code_simp
  have b: "kubectlUnifiedSearch demoEnv (queryOnly ''  '') = Inl ''Search query cannot be empty''"
    by (rule search_fails_iff[THEN iffD2], rule disjI1, rule conjI[OF 4 refl])
  have 5: "query (queryOnly [char_of (160::nat), char_of (9::nat)]) = [] \<or>
           trim (query (queryOnly [char_of (160::nat), char_of (9::nat)])) = []"
    by code_simp
  have c: "kubectlUnifiedSearch demoEnv (queryOnly [char_of (160::nat), char_of (9::nat)]) =
             Inl ''Search query cannot be empty''"
    by (rule search_fails_iff[THEN iffD2], rule disjI1, rule conjI[OF 5 refl])
  show ?thesis
    by (rule conjI[OF a conjI[OF b c]])
qed

text \<open>
  Claim C7 as stated fails. The search throws with a query that is not blank when the
  empty namespace set is given and the listing of the namespaces fails, and when that
  listing succeeds and the pattern is rejected; and the error for a blank query is not
  wrapped.
\<close>

theorem search_fails_outside_the_two_cases:
  "kubectlUnifiedSearch (demoEnv\<lparr>execText := (\<lambda>cmd. Inl ''Error: Command failed'')\<rparr>)
     ((queryOnly ''web'')\<lparr>namespaces := Some []\<rparr>) =
     Inl ''Search failed: Failed to get namespaces: Error: Command failed'' \<and>
   namespaces ((queryOnly ''web'')\<lparr>namespaces := Some []\<rparr>) \<noteq> None \<and>
   kubectlUnifiedSearch demoEnv ((queryOnly ''web'')\<lparr>namespacePattern := Some ''(''\<rparr>) =
     Inl ''Search failed: Failed to get namespaces: SyntaxError: outside the fragment'' \<and>
   execText demoEnv ''kubectl get namespaces -o name'' \<noteq> Inl ''Error: Command failed'' \<and>
   kubectlUnifiedSearch demoEnv (queryOnly ''  '') \<noteq> Inl (''Search failed: '' @ ''Search query cannot be empty'')"
proof -
  have a: "kubectlUnifiedSearch (demoEnv\<lparr>execText := (\<lambda>cmd. Inl ''Error: Command failed'')\<rparr>)
     ((queryOnly ''web'')\<lparr>namespaces := Some []\<rparr>) =
     Inl ''Search failed: Failed to get namespaces: Error: Command failed''"
    by code_simp
  have b: "namespaces ((queryOnly ''web'')\<lparr>namespaces := Some []\<rparr>) \<noteq> None"
    by simp
  have c: "kubectlUnifiedSearch demoEnv ((queryOnly ''web'')\<lparr>namespacePattern := Some ''(''\<rparr>) =
     Inl ''Search failed: Failed to get namespaces: SyntaxError: outside the fragment''"
    by code_simp
  have d: "execText demoEnv ''kubectl get namespaces -o name'' \<noteq> Inl ''Error: Command failed''"
    by (simp add: demoEnv_def)
  have e: "kubectlUnifiedSearch demoEnv (queryOnly ''  '') \<noteq> Inl (''Search failed: '' @ ''Search query cannot be empty'')"
    by code_simp
  show ?thesis
    by (intro conjI) (rule a b c d e)+
qed

subsection \<open>The edit distance rule of the deep scan\<close>

lemma lev_ge_diff: "length xs - length ys \<le> lev xs ys \<and> length ys - length xs \<le> lev xs ys"
  by (induction xs ys rule: lev.induct) auto

lemma levenshteinDistance_ge_diff:
  "nat \<bar>int (length a) - int (length b)\<bar> \<le> levenshteinDistance a b"
  using lev_ge_diff[of "rev a" "rev b"] by (simp add: levenshteinDistance_lev) linarith

lemma length_toLowerCase: "length (toLowerCase s) = length s"
  by (simp add: toLowerCase_def)

lemma fuzzyNameMatch_eq:
  assumes "queryLower \<noteq> []"
  shows "fuzzyNameMatch queryLower resourceName searchConfig =
     (let d = levenshteinDistance queryLower resourceName;
          sc = double (1 - double (of_nat d /
                                   of_nat (max (length queryLower) (length resourceName))))
      in if d \<le> maxDistance searchConfig \<and> minScore searchConfig \<le> sc
         then [\<lparr>score = double (sc * double (9 / 10)),
                reason = ''fuzzy name match (distance: '' @ showNat d @ '')'',
                distance = d\<rparr>]
         else [])"
proof -
  have "nat \<bar>int (length queryLower) - int (length resourceName)\<bar> \<le> maxDistance searchConfig"
    if "levenshteinDistance queryLower resourceName \<le> maxDistance searchConfig"
    using that levenshteinDistance_ge_diff[of queryLower resourceName] by linarith
  moreover have "max (length queryLower) (length resourceName) \<noteq> 0"
    using assms by auto
  ultimately show ?thesis
    unfolding fuzzyNameMatch_def Let_def by auto
qed

lemma resourceMatches_fuzzy:
  assumes "type strat \<noteq> ''labels''" "type strat \<noteq> ''fields''" "type strat \<noteq> ''exact''"
    and "fuzzyNameMatch (toLowerCase q) (toLowerCase (name r)) searchConfig = [m]"
  shows "resourceMatches e r q strat searchConfig inclLabels = Inr [m]"
  using assms by (simp add: resourceMatches_def Let_def)

lemma deepSearchResources_single:
  assumes "resourceMatches e r q strat searchConfig inclLabels = Inr [m]" "0 < maxResults"
  shows "deepSearchResources e [r] rtype ns q strat searchConfig inclLabels inclAnnotations maxResults =
         Inr [\<lparr>resource = r, resourceType = rtype, namespace = ns, matchScore = score m,
               matchReason = reason m, levenshteinDistance_field = distance m\<rparr>]"
  using assms by (simp add: deepSearchResources_def bestOf_def)

text \<open>
  Claim C3, amended. Under the fuzzy strategy and for a query that is not empty, the edit
  distance rule accepts a candidate exactly when the distance \<open>d\<close> of the lower-case
  query and name is at most \<open>maxDistance\<close> and the score \<open>1 - d / max (len query) (len name)\<close>,
  computed in doubles, is at least \<open>minScore\<close>; the threshold is compared with this
  score, and the result carries the double product of this score and 0.9.
\<close>

theorem edit_distance_match:
  assumes "q \<noteq> []"
    and "type strat \<noteq> ''labels''" "type strat \<noteq> ''fields''" "type strat \<noteq> ''exact''"
    and "0 < maxResults"
  shows "let d = levenshteinDistance (toLowerCase q) (toLowerCase (name r));
             sc = double (1 - double (of_nat d / of_nat (max (length q) (length (name r)))));
             accepted = (d \<le> maxDistance searchConfig \<and> minScore searchConfig \<le> sc)
         in (fuzzyNameMatch (toLowerCase q) (toLowerCase (name r)) searchConfig \<noteq> [] \<longleftrightarrow> accepted) \<and>
            (accepted \<longrightarrow>
               deepSearchResources e [r] rtype ns q strat searchConfig inclLabels inclAnnotations
                 maxResults =
               Inr [\<lparr>resource = r, resourceType = rtype, namespace = ns,
                     matchScore = double (sc * double (9 / 10)),
                     matchReason = ''fuzzy name match (distance: '' @ showNat d @ '')'',
                     levenshteinDistance_field = d\<rparr>])"
proof -
  let ?d = "levenshteinDistance (toLowerCase q) (toLowerCase (name r))"
  let ?sc = "double (1 - double (of_nat ?d / of_nat (max (length q) (length (name r)))))"
  let ?m = "\<lparr>score = double (?sc * double (9 / 10)),
             reason = ''fuzzy name match (distance: '' @ showNat ?d @ '')'',
             distance = ?d\<rparr>"
  have ql: "toLowerCase q \<noteq> []"
    using assms(1) length_toLowerCase[of q] by (metis length_0_conv)
  note fm = fuzzyNameMatch_eq[OF ql, of "toLowerCase (name r)" searchConfig, unfolded length_toLowerCase]
  show ?thesis
    unfolding Let_def
  proof (intro conjI impI)
    show "fuzzyNameMatch (toLowerCase q) (toLowerCase (name r)) searchConfig \<noteq> [] \<longleftrightarrow>
          (?d \<le> maxDistance searchConfig \<and> minScore searchConfig \<le> ?sc)"
      unfolding fm Let_def by simp
  next
    assume acc: "?d \<le> maxDistance searchConfig \<and> minScore searchConfig \<le> ?sc"
    have "fuzzyNameMatch (toLowerCase q) (toLowerCase (name r)) searchConfig = [?m]"
      unfolding fm Let_def using acc by simp
    then have "resourceMatches e r q strat searchConfig inclLabels = Inr [?m]"
      by (rule resourceMatches_fuzzy[OF assms(2-4)])
    from deepSearchResources_single[OF this assms(5)]
    show "deepSearchResources e [r] rtype ns q strat searchConfig inclLabels inclAnnotations
                 maxResults =
               Inr [\<lparr>resource = r, resourceType = rtype, namespace = ns,
                     matchScore = double (?sc * double (9 / 10)),
                     matchReason = ''fuzzy name match (distance: '' @ showNat ?d @ '')'',
                     levenshteinDistance_field = ?d\<rparr>]"
      by simp
  qed
qed

theorem edit_distance_match_witness:
  "deepSearchResources demoEnv [named ''webapp''] ''pods'' ''ns1'' ''webapq''
     \<lparr>type = ''fuzzy'', selector = ''webapq''\<rparr> (getFuzzyConfig ''moderate'') True False 3 =
     Inr [\<lparr>resource = named ''webapp'', resourceType = ''pods'', namespace = ''ns1'',
           matchScore = 3 / 4, matchReason = ''fuzzy name match (distance: 1)'',
           levenshteinDistance_field = 1\<rparr>] \<and>
   fuzzyNameMatch (toLowerCase ''abcde'') (toLowerCase (name (named ''vwxye'')))
     (getFuzzyConfig ''loose'') = []"
proof -
  let ?strat = "\<lparr>type = ''fuzzy'', selector = ''webapq''\<rparr>"
  let ?cfg = "getFuzzyConfig ''moderate''"
  let ?d = "levenshteinDistance (toLowerCase ''webapq'') (toLowerCase (name (named ''webapp'')))"
  let ?sc = "double (1 - double (of_nat ?d /
               of_nat (max (length ''webapq'') (length (name (named ''webapp''))))))"
  have 1: "''webapq'' \<noteq> []" by simp
  have 2: "type ?strat \<noteq> ''labels''" "type ?strat \<noteq> ''fields''" "type ?strat \<noteq> ''exact''"
    by simp_all
  have 3: "(0::int) < 3" by simp
  have acc: "?d \<le> maxDistance ?cfg \<and> minScore ?cfg \<le> ?sc"
    by code_simp
  have v: "\<lparr>resource = named ''webapp'', resourceType = ''pods'', namespace = ''ns1'',
            matchScore = double (?sc * double (9 / 10)),
            matchReason = ''fuzzy name match (distance: '' @ showNat ?d @ '')'',
            levenshteinDistance_field = ?d\<rparr> =
           \<lparr>resource = named ''webapp'', resourceType = ''pods'', namespace = ''ns1'',
            matchScore = 3 / 4, matchReason = ''fuzzy name match (distance: 1)'',
            levenshteinDistance_field = 1\<rparr>"
    by code_simp
  note t = edit_distance_match[where q = "''webapq''" and strat = ?strat and maxResults = 3
      and r = "named ''webapp''" and searchConfig = ?cfg and e = demoEnv and rtype = "''pods''"
      and ns = "''ns1''" and inclLabels = True and inclAnnotations = False,
      OF 1 2 3, unfolded Let_def, THEN conjunct2, THEN mp, OF acc]
  have a: "deepSearchResources demoEnv [named ''webapp''] ''pods'' ''ns1'' ''webapq''
     ?strat ?cfg True False 3 =
     Inr [\<lparr>resource = named ''webapp'', resourceType = ''pods'', namespace = ''ns1'',
           matchScore = 3 / 4, matchReason = ''fuzzy name match (distance: 1)'',
           levenshteinDistance_field = 1\<rparr>]"
    using t unfolding v .
  let ?d' = "levenshteinDistance (toLowerCase ''abcde'') (toLowerCase (name (named ''vwxye'')))"
  let ?sc' = "double (1 - double (of_nat ?d' /
                of_nat (max (length ''abcde'') (length (name (named ''vwxye''))))))"
  have 4: "''abcde'' \<noteq> []" by simp
  have rej: "\<not> (?d' \<le> maxDistance (getFuzzyConfig ''loose'') \<and>
                minScore (getFuzzyConfig ''loose'') \<le> ?sc')"
    by code_simp
  note t' = edit_distance_match[where q = "''abcde''" and strat = ?strat and maxResults = 3
      and r = "named ''vwxye''" and searchConfig = "getFuzzyConfig ''loose''" and e = demoEnv
      and rtype = "''pods''" and ns = "''ns1''" and inclLabels = True and inclAnnotations = False,
      OF 4 2 3, unfolded Let_def, THEN conjunct1]
  have b: "fuzzyNameMatch (toLowerCase ''abcde'') (toLowerCase (name (named ''vwxye'')))
     (getFuzzyConfig ''loose'') = []"
    using t' rej by blast
  show ?thesis
    by (rule conjI[OF a b])
qed

text \<open>
  Claim C3 as stated fails. With the strict tolerance (\<open>minScore\<close> 0.8), the query
  \<open>webapq\<close> and the name \<open>webapp\<close> the rule accepts, and the score it reports, 0.75,
  is below \<open>minScore\<close>.
\<close>

theorem edit_distance_accepted_below_minScore:
  "deepSearchResources demoEnv [named ''webapp''] ''pods'' ''ns1'' ''webapq''
     \<lparr>type = ''fuzzy'', selector = ''webapq''\<rparr> (getFuzzyConfig ''strict'') True False 3 =
     Inr [\<lparr>resource = named ''webapp'', resourceType = ''pods'', namespace = ''ns1'',
           matchScore = 3 / 4, matchReason = ''fuzzy name match (distance: 1)'',
           levenshteinDistance_field = 1\<rparr>] \<and>
   \<not> minScore (getFuzzyConfig ''strict'') \<le>
       double (double (1 - double (of_nat (levenshteinDistance (toLowerCase ''webapq'')
                                            (toLowerCase ''webapp'')) /
                                   of_nat (max (length ''webapq'') (length ''webapp'')))) *
               double (9 / 10))"
proof -
  have a: "deepSearchResources demoEnv [named ''webapp''] ''pods'' ''ns1'' ''webapq''
     \<lparr>type = ''fuzzy'', selector = ''webapq''\<rparr> (getFuzzyConfig ''strict'') True False 3 =
     Inr [\<lparr>resource = named ''webapp'', resourceType = ''pods'', namespace = ''ns1'',
           matchScore = 3 / 4, matchReason = ''fuzzy name match (distance: 1)'',
           levenshteinDistance_field = 1\<rparr>]"
    by code_simp
  have b: "\<not> minScore (getFuzzyConfig ''strict'') \<le>
       double (double (1 - double (of_nat (levenshteinDistance (toLowerCase ''webapq'')
                                            (toLowerCase ''webapp'')) /
                                   of_nat (max (length ''webapq'') (length ''webapp'')))) *
               double (9 / 10))"
    by code_simp
  show ?thesis by (rule conjI[OF a b])
qed

subsection \<open>The quick scan\<close>

lemma quickScanLoop_extends:
  "\<exists>more. quickScanLoop resources rtype ns queryLower maxResults results = results @ more"
proof (induction resources arbitrary: results)
  case Nil
  then show ?case by simp
next
  case (Cons r rest)
  obtain more where
    "quickScanLoop rest rtype ns queryLower maxResults (results @ [quickHit r rtype ns]) =
       (results @ [quickHit r rtype ns]) @ more"
    using Cons.IH by blast
  moreover obtain more' where
    "quickScanLoop rest rtype ns queryLower maxResults results = results @ more'"
    using Cons.IH by blast
  ultimately show ?case
    by (simp add: Let_def quickHit_def)
qed

lemma resourceMatches_no_throw:
  assumes "type strat = ''exact'' \<longrightarrow> (\<exists>test. regExp e (wildcardRegexSource (selector strat)) = Inr test)"
  shows "\<exists>ms. resourceMatches e r q strat searchConfig inclLabels = Inr ms"
  using assms by (auto simp: resourceMatches_def Let_def)

lemma deepSearchLoop_no_throw:
  assumes "type strat = ''exact'' \<longrightarrow> (\<exists>test. regExp e (wildcardRegexSource (selector strat)) = Inr test)"
  shows "\<exists>ds. deepSearchLoop e resources rtype ns q strat searchConfig inclLabels inclAnnotations
                 maxResults results = Inr ds"
proof (induction resources arbitrary: results)
  case Nil
  then show ?case by simp
next
  case (Cons r rest)
  obtain ms where ms: "resourceMatches e r q strat searchConfig inclLabels = Inr ms"
    using resourceMatches_no_throw[OF assms] by blast
  show ?case
    using Cons.IH ms by (cases ms) (simp_all add: Let_def)
qed

text \<open>
  The quick scan runs under every strategy. Whatever the strategy is, when the listing
  of a kind in a namespace returns candidates, the name of the first contains the query
  (both in lower case) and the limit is not reached, that candidate is accepted with
  score 1 and the reason \<open>exact substring match in name\<close>. Under the exact strategy
  this needs a pattern that \<^verbatim>\<open>RegExp\<close> accepts: an error of the deep scan empties the
  result of the namespace.
\<close>

lemma quickScan_under_every_strategy:
  assumes "execJson e k (''kubectl get '' @ rtype @ '' -n '' @ ns @ '' -o json'') = Inr (Some (r # rest))"
    and "includesStr (toLowerCase (name r)) (toLowerCase q)"
    and "int found < lmt"
    and "type strat = ''exact'' \<longrightarrow> (\<exists>test. regExp e (wildcardRegexSource (selector strat)) = Inr test)"
  shows "\<exists>more. searchNamespaceUnit e k rtype ns q strat searchConfig inclLabels inclAnnotations
                  lmt found = quickHit r rtype ns # more"
proof -
  have res: "getResourcesWithPreFilter e k rtype ns None None = r # rest"
    using assms(1) by (simp add: getResourcesWithPreFilter_def)
  have budget: "\<not> min 10 (lmt - int found) \<le> 0"
    using assms(3) by simp
  obtain more where qm:
    "quickScanResources (r # rest) rtype ns (toLowerCase q) (min 10 (lmt - int found)) =
       quickHit r rtype ns # more"
    using quickScanLoop_extends[of rest rtype ns "toLowerCase q" "min 10 (lmt - int found)"
            "[quickHit r rtype ns]"] assms(2) budget
    by (auto simp: quickScanResources_def quickHit_def)
  obtain ds where ds:
    "deepSearchResources e
       (filter (\<lambda>x. \<not> list_ex (\<lambda>qm. name (resource qm) = name x) (quickHit r rtype ns # more)) (r # rest))
       rtype ns q strat searchConfig inclLabels inclAnnotations
       (min 3 (lmt - int found - int (length (quickHit r rtype ns # more)))) = Inr ds"
    unfolding deepSearchResources_def using deepSearchLoop_no_throw[OF assms(4)] by blast
  show ?thesis
    unfolding searchNamespaceUnit_def Let_def res qm ds by simp
qed

lemma quickScan_under_every_strategy_at_labels:
  "\<exists>more. searchNamespaceUnit demoEnv 0 ''pods'' ''ns1'' ''web'' \<lparr>type = ''labels'', selector = ''web''\<rparr>
            (getFuzzyConfig ''moderate'') True False 20 0 =
          quickHit (named ''webapp-1'') ''pods'' ''ns1'' # more"
proof -
  have 1: "execJson demoEnv 0 (''kubectl get '' @ ''pods'' @ '' -n '' @ ''ns1'' @ '' -o json'') =
             Inr (Some (named ''webapp-1'' # [named ''my-webapp-svc'', named ''backend'']))"
    by code_simp
  have 2: "includesStr (toLowerCase (name (named ''webapp-1''))) (toLowerCase ''web'')"
    by code_simp
  have 3: "int 0 < 20" by simp
  have 4: "type \<lparr>type = ''labels'', selector = ''web''\<rparr> = ''exact'' \<longrightarrow>
           (\<exists>test. regExp demoEnv (wildcardRegexSource (selector \<lparr>type = ''labels'', selector = ''web''\<rparr>)) = Inr test)"
    by simp
  show ?thesis
    by (rule quickScan_under_every_strategy[OF 1 2 3 4])
qed

text \<open>
  Claim C2: the code does not keep the quick scan to the fuzzy strategy. With the mode
  \<open>labels\<close> and the query \<open>web\<close>, two pods that have no label are accepted with the
  reason \<open>exact substring match in name\<close>.
\<close>

theorem quickScan_accepts_under_labels:
  "kubectlUnifiedSearch demoEnv ((queryOnly ''web'')\<lparr>searchMode := Some ''labels''\<rparr>) =
     Inr \<lparr>shown = [quickHit (named ''webapp-1'') ''pods'' ''ns1'',
                   quickHit (named ''my-webapp-svc'') ''pods'' ''ns1''],
          searchType = ''labels''\<rparr> \<and>
   labels (named ''webapp-1'') = None \<and>
   matchReason (quickHit (named ''webapp-1'') ''pods'' ''ns1'') = ''exact substring match in name''"
proof -
  have a: "kubectlUnifiedSearch demoEnv ((queryOnly ''web'')\<lparr>searchMode := Some ''labels''\<rparr>) =
     Inr \<lparr>shown = [quickHit (named ''webapp-1'') ''pods'' ''ns1'',
                   quickHit (named ''my-webapp-svc'') ''pods'' ''ns1''],
          searchType = ''labels''\<rparr>"
    by code_simp
  have b: "labels (named ''webapp-1'') = None" by (simp add: named_def)
  have c: "matchReason (quickHit (named ''webapp-1'') ''pods'' ''ns1'') = ''exact substring match in name''"
    by (simp add: quickHit_def)
  show ?thesis by (intro conjI) (rule a b c)+
qed

subsection \<open>The scenario of the query webapp\<close>

text \<open>
  Claim C5, amended. For the query \<open>webapp\<close> with the moderate tolerance and the pods
  \<open>webapp-1\<close>, \<open>my-webapp-svc\<close> and \<open>backend\<close>, the search returns \<open>webapp-1\<close> and
  \<open>my-webapp-svc\<close>, both with score 1 from the quick scan, since \<open>webapp\<close> is a substring
  of both names, and does not return \<open>backend\<close>. The deep scan alone would give
  \<open>my-webapp-svc\<close> the score 0.8 (the double of that name) of the word boundary rule.
\<close>

theorem webapp_scenario:
  "kubectlUnifiedSearch demoEnv ((queryOnly ''webapp'')\<lparr>fuzzyTolerance := Some ''moderate''\<rparr>) =
     Inr \<lparr>shown = [quickHit (named ''webapp-1'') ''pods'' ''ns1'',
                   quickHit (named ''my-webapp-svc'') ''pods'' ''ns1''],
          searchType = ''fuzzy''\<rparr> \<and>
   includesStr (toLowerCase ''my-webapp-svc'') (toLowerCase ''webapp'') \<and>
   deepSearchResources demoEnv [named ''my-webapp-svc''] ''pods'' ''ns1'' ''webapp''
     \<lparr>type = ''fuzzy'', selector = ''webapp''\<rparr> (getFuzzyConfig ''moderate'') True False 3 =
     Inr [\<lparr>resource = named ''my-webapp-svc'', resourceType = ''pods'', namespace = ''ns1'',
           matchScore = double (8 / 10), matchReason = ''word boundary match in name'',
           levenshteinDistance_field = 0\<rparr>]"
proof -
  have a: "kubectlUnifiedSearch demoEnv ((queryOnly ''webapp'')\<lparr>fuzzyTolerance := Some ''moderate''\<rparr>) =
     Inr \<lparr>shown = [quickHit (named ''webapp-1'') ''pods'' ''ns1'',
                   quickHit (named ''my-webapp-svc'') ''pods'' ''ns1''],
          searchType = ''fuzzy''\<rparr>"
    by code_simp
  have b: "includesStr (toLowerCase ''my-webapp-svc'') (toLowerCase ''webapp'')"
    by code_simp
  have c: "deepSearchResources demoEnv [named ''my-webapp-svc''] ''pods'' ''ns1'' ''webapp''
     \<lparr>type = ''fuzzy'', selector = ''webapp''\<rparr> (getFuzzyConfig ''moderate'') True False 3 =
     Inr [\<lparr>resource = named ''my-webapp-svc'', resourceType = ''pods'', namespace = ''ns1'',
           matchScore = double (8 / 10), matchReason = ''word boundary match in name'',
           levenshteinDistance_field = 0\<rparr>]"
    by code_simp
  show ?thesis by (intro conjI) (rule a b c)+
qed

text \<open>
  Claim C5 as stated fails: \<open>my-webapp-svc\<close> is returned with score 1, not 0.8.
\<close>

theorem webapp_scenario_svc_scores_one:
  "\<exists>out. kubectlUnifiedSearch demoEnv ((queryOnly ''webapp'')\<lparr>fuzzyTolerance := Some ''moderate''\<rparr>) = Inr out \<and>
         (\<exists>m \<in> set (shown out). name (resource m) = ''my-webapp-svc'' \<and> matchScore m = 1 \<and>
                                   matchReason m = ''exact substring match in name'') \<and>
         \<not> (\<exists>m \<in> set (shown out). name (resource m) = ''my-webapp-svc'' \<and> matchScore m = 8 / 10) \<and>
         \<not> (\<exists>m \<in> set (shown out). name (resource m) = ''my-webapp-svc'' \<and> matchScore m \<noteq> 1)"
proof -
  let ?out = "\<lparr>shown = [quickHit (named ''webapp-1'') ''pods'' ''ns1'',
                   quickHit (named ''my-webapp-svc'') ''pods'' ''ns1''],
          searchType = ''fuzzy''\<rparr>"
  have a: "kubectlUnifiedSearch demoEnv ((queryOnly ''webapp'')\<lparr>fuzzyTolerance := Some ''moderate''\<rparr>) = Inr ?out"
    by code_simp
  have b: "\<exists>m \<in> set (shown ?out). name (resource m) = ''my-webapp-svc'' \<and> matchScore m = 1 \<and>
                                   matchReason m = ''exact substring match in name''"
    by (simp add: quickHit_def named_def)
  have c: "\<not> (\<exists>m \<in> set (shown ?out). name (resource m) = ''my-webapp-svc'' \<and> matchScore m = 8 / 10)"
    by (simp add: quickHit_def named_def)
  have d: "\<not> (\<exists>m \<in> set (shown ?out). name (resource m) = ''my-webapp-svc'' \<and> matchScore m \<noteq> 1)"
    by (simp add: quickHit_def named_def)
  show ?thesis
    by (rule exI[of _ ?out]) (intro conjI, rule a, rule b, rule c, rule d)
qed

subsection \<open>Listing failures\<close>

lemma silenced_fields:
  "regExp (silenced e) = regExp e" "localeCompare (silenced e) = localeCompare e"
  "execText (silenced e) = execText e"
  by (simp_all add: silenced_def)

lemma getResourcesWithPreFilter_silenced:
  "getResourcesWithPreFilter (silenced e) k rtype ns labelSelector fieldSelector =
   getResourcesWithPreFilter e k rtype ns labelSelector fieldSelector"
  by (simp add: getResourcesWithPreFilter_def silenced_def Let_def split: sum.splits option.splits)

lemma resourceMatches_silenced:
  "resourceMatches (silenced e) r q strat searchConfig inclLabels =
   resourceMatches e r q strat searchConfig inclLabels"
  unfolding resourceMatches_def silenced_fields by (rule refl)

lemma deepSearchLoop_silenced:
  "deepSearchLoop (silenced e) resources rtype ns q strat searchConfig inclLabels inclAnnotations
     maxResults results =
   deepSearchLoop e resources rtype ns q strat searchConfig inclLabels inclAnnotations
     maxResults results"
  by (induction resources arbitrary: results)
     (simp_all add: resourceMatches_silenced split: sum.splits list.splits)

lemma searchNamespaceUnit_silenced:
  "searchNamespaceUnit (silenced e) k rtype ns q strat searchConfig inclLabels inclAnnotations lmt found =
   searchNamespaceUnit e k rtype ns q strat searchConfig inclLabels inclAnnotations lmt found"
  unfolding searchNamespaceUnit_def getResourcesWithPreFilter_silenced deepSearchResources_def
    deepSearchLoop_silenced by (rule refl)

lemma batchLoop_silenced:
  "batchLoop (silenced e) rtype nss q strat searchConfig inclLabels inclAnnotations lmt i st =
   batchLoop e rtype nss q strat searchConfig inclLabels inclAnnotations lmt i st"
proof (induction e rtype nss q strat searchConfig inclLabels inclAnnotations lmt i st
       rule: batchLoop.induct)
  case (1 e rtype nss q strat searchConfig inclLabels inclAnnotations lmt i results k)
  show ?case
    apply (subst batchLoop.simps)
    apply (subst (2) batchLoop.simps)
    using "1.IH" by (simp add: Let_def searchNamespaceUnit_silenced)
qed

lemma typeLoop_silenced:
  "typeLoop (silenced e) rtypes nss q strat searchConfig inclLabels inclAnnotations lmt st =
   typeLoop e rtypes nss q strat searchConfig inclLabels inclAnnotations lmt st"
proof (induction rtypes arbitrary: st)
  case Nil
  then show ?case by (cases st) simp
next
  case (Cons rtype rest)
  obtain results k where st: "st = (results, k)" by (cases st)
  show ?case
    unfolding st typeLoop.simps batchLoop_silenced Cons.IH by (rule refl)
qed

lemma streamingSearch_silenced:
  "streamingSearch (silenced e) rtypes nss q strat searchConfig inclLabels inclAnnotations rcnt lmt =
   streamingSearch e rtypes nss q strat searchConfig inclLabels inclAnnotations rcnt lmt"
  unfolding streamingSearch_def typeLoop_silenced by (rule refl)

lemma sortResults_silenced: "sortResults (silenced e) results sortKey = sortResults e results sortKey"
  unfolding sortResults_def silenced_fields by (rule refl)

lemma getTargetNamespaces_silenced:
  "getTargetNamespaces (silenced e) nss nsPattern exclSystem q maxNamespaces =
   getTargetNamespaces e nss nsPattern exclSystem q maxNamespaces"
  unfolding getTargetNamespaces_def silenced_fields by (rule refl)

lemma kubectlUnifiedSearch_silenced:
  "kubectlUnifiedSearch (silenced e) input = kubectlUnifiedSearch e input"
  unfolding kubectlUnifiedSearch_def getTargetNamespaces_silenced streamingSearch_silenced
    sortResults_silenced by (rule refl)

lemma searchNamespaceUnit_empty:
  assumes "execJson e k (''kubectl get '' @ rtype @ '' -n '' @ ns @ '' -o json'') \<in>
             {Inl err, Inr None, Inr (Some [])}"
  shows "getResourcesWithPreFilter e k rtype ns None None = [] \<and>
         searchNamespaceUnit e k rtype ns q strat searchConfig inclLabels inclAnnotations lmt found = []"
proof -
  have "getResourcesWithPreFilter e k rtype ns None None = []"
    using assms by (auto simp: getResourcesWithPreFilter_def)
  then show ?thesis
    by (simp add: searchNamespaceUnit_def)
qed

lemma slice_batch: "slice xs (int i) (int i + 50) = take 50 (drop i xs)"
proof (cases "i \<le> length xs")
  case True
  then have "nat (min (int i + 50) (int (length xs)) - int i) = min 50 (length xs - i)"
    by auto
  then show ?thesis
    using True by (simp add: slice_def Let_def min_def)
next
  case False
  then show ?thesis
    by (simp add: slice_def Let_def)
qed

lemma mergeBatch_extends: "\<exists>more. mergeBatch lmt results units = results @ more"
proof (induction units arbitrary: results)
  case Nil
  then show ?case by simp
next
  case (Cons u us)
  obtain more where "mergeBatch lmt (results @ u) us = (results @ u) @ more"
    using Cons.IH by blast
  then show ?case
    by (simp add: Let_def)
qed

lemma mergeBatch_filter:
  "int (length results) < lmt \<Longrightarrow>
   mergeBatch lmt results units = mergeBatch lmt results (filter (\<lambda>u. u \<noteq> []) units)"
proof (induction units arbitrary: results)
  case Nil
  then show ?case by simp
next
  case (Cons u us)
  show ?case
  proof (cases "u = []")
    case True
    then show ?thesis using Cons by (simp add: Let_def)
  next
    case False
    show ?thesis
    proof (cases "lmt \<le> int (length (results @ u))")
      case True
      then show ?thesis using False by (simp add: Let_def)
    next
      case lt: False
      then have "int (length (results @ u)) < lmt" by simp
      from Cons.IH[OF this] show ?thesis
        using False lt by (simp add: Let_def)
    qed
  qed
qed

lemma mergeBatch_under_limit:
  "int (length (mergeBatch lmt results units)) < lmt \<Longrightarrow>
   mergeBatch lmt results units = results @ concat units"
proof (induction units arbitrary: results)
  case Nil
  then show ?case by simp
next
  case (Cons u us)
  show ?case
  proof (cases "lmt \<le> int (length (results @ u))")
    case True
    then show ?thesis using Cons.prems by (simp add: Let_def)
  next
    case False
    then have "mergeBatch lmt (results @ u) us = (results @ u) @ concat us"
      using Cons.prems by (intro Cons.IH) (simp add: Let_def)
    then show ?thesis using False by (simp add: Let_def)
  qed
qed

lemma searchNamespaceUnit_no_candidates:
  "getResourcesWithPreFilter e k rtype ns None None = [] \<Longrightarrow>
   searchNamespaceUnit e k rtype ns q strat searchConfig inclLabels inclAnnotations lmt found = []"
  by (simp add: searchNamespaceUnit_def)

lemma batchLoop_all_empty:
  assumes "\<forall>n \<in> set nss. \<forall>j. getResourcesWithPreFilter e j rtype n None None = []"
    and "int (length results) < lmt"
  shows "batchLoop e rtype nss q strat searchConfig inclLabels inclAnnotations lmt i (results, k) =
         (results, k + (length nss - i))"
proof (induction "length nss - i" arbitrary: i k rule: less_induct)
  case less
  show ?case
  proof (cases "i < length nss")
    case False
    then show ?thesis by (subst batchLoop.simps) simp
  next
    case True
    let ?batch = "take 50 (drop i nss)"
    let ?units = "map (\<lambda>(ns, n). searchNamespaceUnit e (k + n) rtype ns q strat searchConfig
                                    inclLabels inclAnnotations lmt (length results))
                    (zip ?batch [0..<length ?batch])"
    have "\<forall>u \<in> set ?units. u = []"
    proof
      fix u assume "u \<in> set ?units"
      then obtain ns n where "(ns, n) \<in> set (zip ?batch [0..<length ?batch])"
        and u: "u = searchNamespaceUnit e (k + n) rtype ns q strat searchConfig
                      inclLabels inclAnnotations lmt (length results)"
        by auto
      then have "ns \<in> set nss"
        by (meson in_set_dropD in_set_takeD set_zip_leftD)
      then show "u = []"
        using assms(1) u by (simp add: searchNamespaceUnit_no_candidates)
    qed
    then have "filter (\<lambda>u. u \<noteq> []) ?units = []"
      by (simp add: filter_empty_conv)
    then have m: "mergeBatch lmt results ?units = results"
      using mergeBatch_filter[OF assms(2), of ?units] by simp
    have ih: "batchLoop e rtype nss q strat searchConfig inclLabels inclAnnotations lmt (i + 50)
                (results, k + length ?batch) =
              (results, k + length ?batch + (length nss - (i + 50)))"
      by (rule less.hyps) (use True in simp)
    have len: "length ?batch + (length nss - (i + 50)) = length nss - i"
      using True by auto
    show ?thesis
      apply (subst batchLoop.simps)
      using True assms(2) m ih len by (simp add: slice_batch Let_def)
  qed
qed

lemma typeLoop_at_limit:
  "lmt \<le> int (length results) \<Longrightarrow>
   typeLoop e rtypes nss q strat searchConfig inclLabels inclAnnotations lmt (results, k) = (results, k)"
  by (cases rtypes) simp_all

lemma typeLoop_skips_empty_kind:
  assumes "\<forall>n \<in> set nss. \<forall>j. getResourcesWithPreFilter e j rtype n None None = []"
    and "int (length results) < lmt"
  shows "typeLoop e (rtype # rest) nss q strat searchConfig inclLabels inclAnnotations lmt (results, k) =
         typeLoop e rest nss q strat searchConfig inclLabels inclAnnotations lmt
           (results, k + length nss)"
  using assms(2) batchLoop_all_empty[OF assms, of q strat searchConfig inclLabels inclAnnotations 0 k]
  by simp

lemma batchLoop_extends:
  "\<exists>more. fst (batchLoop e rtype nss q strat searchConfig inclLabels inclAnnotations lmt i
                   (results, k)) = results @ more"
proof (induction "length nss - i" arbitrary: i k results rule: less_induct)
  case less
  show ?case
  proof (cases "i < length nss \<and> \<not> lmt \<le> int (length results)")
    case False
    then show ?thesis by (subst batchLoop.simps) auto
  next
    case True
    let ?batch = "take 50 (drop i nss)"
    let ?units = "map (\<lambda>(ns, n). searchNamespaceUnit e (k + n) rtype ns q strat searchConfig
                                    inclLabels inclAnnotations lmt (length results))
                    (zip ?batch [0..<length ?batch])"
    obtain m1 where m1: "mergeBatch lmt results ?units = results @ m1"
      using mergeBatch_extends by blast
    obtain m2 where m2:
      "fst (batchLoop e rtype nss q strat searchConfig inclLabels inclAnnotations lmt (i + 50)
              (results @ m1, k + length ?batch)) = (results @ m1) @ m2"
    proof -
      have lt: "length nss - (i + 50) < length nss - i" using True by auto
      show thesis using less.hyps[OF lt, of "results @ m1" "k + length ?batch"] that by blast
    qed
    show ?thesis
      apply (subst batchLoop.simps)
      using True m1 m2 by (auto simp: slice_batch Let_def)
  qed
qed

lemma batchLoop_under_limit:
  assumes "batchLoop e rtype nss q strat searchConfig inclLabels inclAnnotations lmt i (results, k) =
             (results', k')"
    and "int (length results') < lmt"
  shows "k' = k + (length nss - i) \<and>
         (\<forall>j. i \<le> j \<and> j < length nss \<longrightarrow>
            (\<exists>found \<le> length results'.
               set (searchNamespaceUnit e (k + (j - i)) rtype (nss ! j) q strat searchConfig
                      inclLabels inclAnnotations lmt found) \<subseteq> set results'))"
  using assms
proof (induction "length nss - i" arbitrary: i k results rule: less_induct)
  case less
  show ?case
  proof (cases "i < length nss")
    case False
    then have "(results', k') = (results, k)"
      using less.prems(1) by (subst (asm) batchLoop.simps) simp
    then show ?thesis using False by auto
  next
    case True
    let ?batch = "take 50 (drop i nss)"
    let ?unit = "\<lambda>ns n. searchNamespaceUnit e (k + n) rtype ns q strat searchConfig
                          inclLabels inclAnnotations lmt (length results)"
    let ?units = "map (\<lambda>(ns, n). ?unit ns n) (zip ?batch [0..<length ?batch])"
    let ?r1 = "mergeBatch lmt results ?units"
    let ?k1 = "k + length ?batch"
    have step: "batchLoop e rtype nss q strat searchConfig inclLabels inclAnnotations lmt i (results, k) =
          (if lmt \<le> int (length results) then (results, k)
           else if lmt \<le> int (length ?r1) then (?r1, ?k1)
           else batchLoop e rtype nss q strat searchConfig inclLabels inclAnnotations lmt (i + 50)
                  (?r1, ?k1))"
      by (subst batchLoop.simps) (use True in \<open>simp add: slice_batch Let_def\<close>)
    have a: "\<not> lmt \<le> int (length results)"
      using less.prems step by (auto split: if_splits)
    have b: "\<not> lmt \<le> int (length ?r1)"
      using less.prems step a by (auto split: if_splits)
    have rec: "batchLoop e rtype nss q strat searchConfig inclLabels inclAnnotations lmt (i + 50)
                 (?r1, ?k1) = (results', k')"
      using less.prems(1) step a b by simp
    have ih: "k' = ?k1 + (length nss - (i + 50)) \<and>
         (\<forall>j. i + 50 \<le> j \<and> j < length nss \<longrightarrow>
            (\<exists>found \<le> length results'.
               set (searchNamespaceUnit e (?k1 + (j - (i + 50))) rtype (nss ! j) q strat searchConfig
                      inclLabels inclAnnotations lmt found) \<subseteq> set results'))"
      by (rule less.hyps[OF _ rec less.prems(2)]) (use True in simp)
    have r1: "?r1 = results @ concat ?units"
      by (rule mergeBatch_under_limit) (use b in simp)
    obtain more where more: "results' = ?r1 @ more"
      using batchLoop_extends[of e rtype nss q strat searchConfig inclLabels inclAnnotations lmt
              "i + 50" ?r1 ?k1] rec by auto
    have k': "k' = k + (length nss - i)"
      using ih True by auto
    have content: "\<exists>found \<le> length results'.
               set (searchNamespaceUnit e (k + (j - i)) rtype (nss ! j) q strat searchConfig
                      inclLabels inclAnnotations lmt found) \<subseteq> set results'"
      if j: "i \<le> j" "j < length nss" for j
    proof (cases "j < i + 50")
      case True
      let ?n = "j - i"
      have n: "?n < length ?batch" using j True by auto
      have bn: "?batch ! ?n = nss ! j" using j n by simp
      have "?units ! ?n = ?unit (nss ! j) ?n"
        using n bn by simp
      moreover have "?n < length ?units" using n by simp
      ultimately have "?unit (nss ! j) ?n \<in> set ?units"
        by (metis nth_mem)
      then have "set (?unit (nss ! j) ?n) \<subseteq> set results'"
        unfolding more r1 by auto
      moreover have "length results \<le> length results'"
        unfolding more r1 by simp
      ultimately show ?thesis by blast
    next
      case False
      then have "i + 50 \<le> j" by simp
      moreover have "?k1 + (j - (i + 50)) = k + (j - i)"
        using False j by auto
      ultimately show ?thesis
        using ih j by force
    qed
    show ?thesis
      using k' content by blast
  qed
qed

lemma typeLoop_extends:
  "\<exists>more. fst (typeLoop e rtypes nss q strat searchConfig inclLabels inclAnnotations lmt
                   (results, k)) = results @ more"
proof (induction rtypes arbitrary: results k)
  case Nil
  then show ?case by simp
next
  case (Cons rtype rest)
  obtain r1 k1 where b: "batchLoop e rtype nss q strat searchConfig inclLabels inclAnnotations lmt 0
                           (results, k) = (r1, k1)"
    by (cases "batchLoop e rtype nss q strat searchConfig inclLabels inclAnnotations lmt 0 (results, k)")
  obtain m1 where m1: "r1 = results @ m1"
    using batchLoop_extends[of e rtype nss q strat searchConfig inclLabels inclAnnotations lmt 0
            results k] b by auto
  obtain m2 where "fst (typeLoop e rest nss q strat searchConfig inclLabels inclAnnotations lmt
                          (r1, k1)) = r1 @ m2"
    using Cons.IH by blast
  then show ?case
    using b m1 by auto
qed

lemma typeLoop_under_limit:
  assumes "typeLoop e rtypes nss q strat searchConfig inclLabels inclAnnotations lmt (results, k) =
             (results', k')"
    and "int (length results') < lmt"
  shows "k' = k + length rtypes * length nss \<and>
         (\<forall>a b. a < length rtypes \<and> b < length nss \<longrightarrow>
            (\<exists>found \<le> length results'.
               set (searchNamespaceUnit e (k + a * length nss + b) (rtypes ! a) (nss ! b) q strat
                      searchConfig inclLabels inclAnnotations lmt found) \<subseteq> set results'))"
  using assms
proof (induction rtypes arbitrary: results k)
  case Nil
  then show ?case by simp
next
  case (Cons rtype rest)
  obtain r1 k1 where b: "batchLoop e rtype nss q strat searchConfig inclLabels inclAnnotations lmt 0
                           (results, k) = (r1, k1)"
    by (cases "batchLoop e rtype nss q strat searchConfig inclLabels inclAnnotations lmt 0 (results, k)")
  have a: "\<not> lmt \<le> int (length results)"
    using Cons.prems by (auto split: if_splits)
  have c: "\<not> lmt \<le> int (length r1)"
    using Cons.prems a b by (auto split: if_splits)
  have rec: "typeLoop e rest nss q strat searchConfig inclLabels inclAnnotations lmt (r1, k1) =
               (results', k')"
    using Cons.prems(1) a b c by simp
  note ih = Cons.IH[OF rec Cons.prems(2)]
  have bl: "k1 = k + (length nss - 0) \<and>
         (\<forall>j. 0 \<le> j \<and> j < length nss \<longrightarrow>
            (\<exists>found \<le> length r1.
               set (searchNamespaceUnit e (k + (j - 0)) rtype (nss ! j) q strat searchConfig
                      inclLabels inclAnnotations lmt found) \<subseteq> set r1))"
    by (rule batchLoop_under_limit[OF b]) (use c in simp)
  obtain more where more: "results' = r1 @ more"
    using typeLoop_extends[of e rest nss q strat searchConfig inclLabels inclAnnotations lmt r1 k1]
      rec by auto
  have k': "k' = k + length (rtype # rest) * length nss"
    using ih bl by simp
  have content: "\<exists>found \<le> length results'.
               set (searchNamespaceUnit e (k + a * length nss + b) ((rtype # rest) ! a) (nss ! b) q
                      strat searchConfig inclLabels inclAnnotations lmt found) \<subseteq> set results'"
    if ab: "a < length (rtype # rest)" "b < length nss" for a b
  proof (cases a)
    case 0
    obtain found where "found \<le> length r1"
      "set (searchNamespaceUnit e (k + b) rtype (nss ! b) q strat searchConfig
              inclLabels inclAnnotations lmt found) \<subseteq> set r1"
      using bl ab by force
    then have "found \<le> length results' \<and>
      set (searchNamespaceUnit e (k + b) rtype (nss ! b) q strat searchConfig
              inclLabels inclAnnotations lmt found) \<subseteq> set results'"
      unfolding more by auto
    then show ?thesis using 0 by auto
  next
    case (Suc a')
    then have "a' < length rest" using ab by simp
    then obtain found where "found \<le> length results'"
      "set (searchNamespaceUnit e (k1 + a' * length nss + b) (rest ! a') (nss ! b) q strat
              searchConfig inclLabels inclAnnotations lmt found) \<subseteq> set results'"
      using ih ab by blast
    moreover have "k1 + a' * length nss + b = k + a * length nss + b"
      using bl Suc by simp
    ultimately show ?thesis using Suc by auto
  qed
  show ?case
    using k' content by blast
qed

lemma streamingSearch_under_limit:
  assumes "int (length (streamingSearch e rtypes nss q strat searchConfig inclLabels inclAnnotations
                          rcnt lmt)) < lmt"
    and "a < length (prioritizeResourceTypes rtypes q)" "b < length (prioritizeNamespaces nss q)"
  shows "\<exists>found \<le> length (streamingSearch e rtypes nss q strat searchConfig inclLabels
                              inclAnnotations rcnt lmt).
           set (searchNamespaceUnit e (a * length (prioritizeNamespaces nss q) + b)
                  (prioritizeResourceTypes rtypes q ! a) (prioritizeNamespaces nss q ! b) q strat
                  searchConfig inclLabels inclAnnotations lmt found)
             \<subseteq> set (streamingSearch e rtypes nss q strat searchConfig inclLabels inclAnnotations
                        rcnt lmt)"
proof -
  let ?P = "prioritizeResourceTypes rtypes q"
  let ?N = "prioritizeNamespaces nss q"
  obtain r k' where t: "typeLoop e ?P ?N q strat searchConfig inclLabels inclAnnotations lmt ([], 0) =
                          (r, k')"
    by (cases "typeLoop e ?P ?N q strat searchConfig inclLabels inclAnnotations lmt ([], 0)")
  have s: "streamingSearch e rtypes nss q strat searchConfig inclLabels inclAnnotations rcnt lmt =
             slice r 0 lmt"
    using t by (simp add: streamingSearch_def Let_def)
  have pos: "0 \<le> lmt" using assms(1) by linarith
  have "int (length (slice r 0 lmt)) = min lmt (int (length r))"
    using pos by (simp add: slice_def Let_def)
  then have lt: "int (length r) < lmt"
    using assms(1) s by auto
  then have id: "slice r 0 lmt = r"
    using pos by (simp add: slice_def Let_def)
  from typeLoop_under_limit[OF t lt] assms(2,3)
  obtain found where "found \<le> length r"
    "set (searchNamespaceUnit e (0 + a * length ?N + b) (?P ! a) (?N ! b) q strat
            searchConfig inclLabels inclAnnotations lmt found) \<subseteq> set r"
    by blast
  then show ?thesis
    unfolding s id by auto
qed

text \<open>
  Claim C8. A listing call that throws, or that returns no items, gives the empty
  candidate list, and the namespace contributes no result. The scan goes on behind it:
  \<^item> while the limit is not reached, the merge of a batch is the merge of the results of
    its namespaces that are not empty;
  \<^item> when every listing of a kind gives no candidate, the scan of that kind and the
    kinds behind it is the scan of the kinds behind it, with the count of the listing
    calls grown by the number of namespaces;
  \<^item> when the search ends below the limit, it has listed every kind in every namespace,
    in the order of the priorities, and its result holds all the matches of each of them.

  The failure is not surfaced: the scan and the whole search return what they return
  in the environment where every failing call answers with the empty list, and an error
  of the search is the same error when all listings are empty, so it never comes from a
  listing.
\<close>

theorem listing_failure_is_an_empty_unit:
  "(execJson e k (''kubectl get '' @ rtype @ '' -n '' @ ns @ '' -o json'') \<in>
      {Inl err, Inr None, Inr (Some [])} \<longrightarrow>
    getResourcesWithPreFilter e k rtype ns None None = [] \<and>
    searchNamespaceUnit e k rtype ns q strat searchConfig inclLabels inclAnnotations lmt found = []) \<and>
   (int (length results) < lmt \<longrightarrow>
    mergeBatch lmt results units = mergeBatch lmt results (filter (\<lambda>u. u \<noteq> []) units)) \<and>
   ((\<forall>n \<in> set nss. \<forall>j. getResourcesWithPreFilter e j rtype n None None = []) \<and>
    int (length results) < lmt \<longrightarrow>
    typeLoop e (rtype # rest) nss q strat searchConfig inclLabels inclAnnotations lmt (results, k) =
    typeLoop e rest nss q strat searchConfig inclLabels inclAnnotations lmt
      (results, k + length nss)) \<and>
   (int (length (streamingSearch e rtypes nss q strat searchConfig inclLabels inclAnnotations
                   rcnt lmt)) < lmt \<longrightarrow>
    (\<forall>a b. a < length (prioritizeResourceTypes rtypes q) \<and>
           b < length (prioritizeNamespaces nss q) \<longrightarrow>
       (\<exists>cnt \<le> length (streamingSearch e rtypes nss q strat searchConfig inclLabels
                            inclAnnotations rcnt lmt).
          set (searchNamespaceUnit e (a * length (prioritizeNamespaces nss q) + b)
                 (prioritizeResourceTypes rtypes q ! a) (prioritizeNamespaces nss q ! b) q strat
                 searchConfig inclLabels inclAnnotations lmt cnt)
            \<subseteq> set (streamingSearch e rtypes nss q strat searchConfig inclLabels inclAnnotations
                       rcnt lmt)))) \<and>
   streamingSearch e rtypes nss q strat searchConfig inclLabels inclAnnotations rcnt lmt =
     streamingSearch (silenced e) rtypes nss q strat searchConfig inclLabels inclAnnotations rcnt lmt \<and>
   kubectlUnifiedSearch e input = kubectlUnifiedSearch (silenced e) input \<and>
   (\<forall>msg. kubectlUnifiedSearch e input = Inl msg \<longrightarrow>
      kubectlUnifiedSearch (e\<lparr>execJson := (\<lambda>k cmd. Inr (Some []))\<rparr>) input = Inl msg)"
proof (intro conjI impI allI)
  assume "execJson e k (''kubectl get '' @ rtype @ '' -n '' @ ns @ '' -o json'') \<in>
      {Inl err, Inr None, Inr (Some [])}"
  from searchNamespaceUnit_empty[OF this]
  show "getResourcesWithPreFilter e k rtype ns None None = []"
    and "searchNamespaceUnit e k rtype ns q strat searchConfig inclLabels inclAnnotations lmt found = []"
    by blast+
next
  assume "int (length results) < lmt"
  then show "mergeBatch lmt results units = mergeBatch lmt results (filter (\<lambda>u. u \<noteq> []) units)"
    by (rule mergeBatch_filter)
next
  assume h: "(\<forall>n \<in> set nss. \<forall>j. getResourcesWithPreFilter e j rtype n None None = []) \<and>
             int (length results) < lmt"
  show "typeLoop e (rtype # rest) nss q strat searchConfig inclLabels inclAnnotations lmt (results, k) =
        typeLoop e rest nss q strat searchConfig inclLabels inclAnnotations lmt
          (results, k + length nss)"
    by (rule typeLoop_skips_empty_kind) (use h in blast)+
next
  fix a b
  assume "int (length (streamingSearch e rtypes nss q strat searchConfig inclLabels inclAnnotations
                   rcnt lmt)) < lmt"
    and "a < length (prioritizeResourceTypes rtypes q) \<and> b < length (prioritizeNamespaces nss q)"
  then show "\<exists>cnt \<le> length (streamingSearch e rtypes nss q strat searchConfig inclLabels
                            inclAnnotations rcnt lmt).
          set (searchNamespaceUnit e (a * length (prioritizeNamespaces nss q) + b)
                 (prioritizeResourceTypes rtypes q ! a) (prioritizeNamespaces nss q ! b) q strat
                 searchConfig inclLabels inclAnnotations lmt cnt)
            \<subseteq> set (streamingSearch e rtypes nss q strat searchConfig inclLabels inclAnnotations
                       rcnt lmt)"
    using streamingSearch_under_limit by blast
next
  show "streamingSearch e rtypes nss q strat searchConfig inclLabels inclAnnotations rcnt lmt =
     streamingSearch (silenced e) rtypes nss q strat searchConfig inclLabels inclAnnotations rcnt lmt"
    by (simp only: streamingSearch_silenced)
next
  show "kubectlUnifiedSearch e input = kubectlUnifiedSearch (silenced e) input"
    by (simp only: kubectlUnifiedSearch_silenced)
next
  fix msg
  assume "kubectlUnifiedSearch e input = Inl msg"
  then show "kubectlUnifiedSearch (e\<lparr>execJson := (\<lambda>k cmd. Inr (Some []))\<rparr>) input = Inl msg"
    unfolding kubectlUnifiedSearch_fails by simp
qed

theorem listing_failure_is_an_empty_unit_witness:
  "execJson demoEnv 0 (''kubectl get '' @ ''jobs'' @ '' -n '' @ ''ns1'' @ '' -o json'') \<in>
      {Inl ''Error: Command failed'', Inr None, Inr (Some [])} \<and>
   getResourcesWithPreFilter demoEnv 0 ''jobs'' ''ns1'' None None = [] \<and>
   searchNamespaceUnit demoEnv 0 ''jobs'' ''ns1'' ''web'' \<lparr>type = ''fuzzy'', selector = ''web''\<rparr>
     (getFuzzyConfig ''moderate'') True False 20 0 = [] \<and>
   kubectlUnifiedSearch demoEnv ((queryOnly ''web'')\<lparr>resourceTypes := Some [''jobs'']\<rparr>) =
     Inr \<lparr>shown = [quickHit (named ''web-job'') ''jobs'' ''ns2''], searchType = ''fuzzy''\<rparr> \<and>
   typeLoop outageEnv (''pods'' # [''deployments'', ''services'']) [''ns1'', ''ns2''] ''web''
     \<lparr>type = ''fuzzy'', selector = ''web''\<rparr> (getFuzzyConfig ''moderate'') True False 20 ([], 0) =
   typeLoop outageEnv [''deployments'', ''services''] [''ns1'', ''ns2''] ''web''
     \<lparr>type = ''fuzzy'', selector = ''web''\<rparr> (getFuzzyConfig ''moderate'') True False 20
     ([], 0 + length [''ns1'', ''ns2'']) \<and>
   kubectlUnifiedSearch outageEnv (queryOnly ''web'') =
     Inr \<lparr>shown = [quickHit (named ''web-svc'') ''services'' ''ns2''], searchType = ''fuzzy''\<rparr>"
proof -
  have 1: "execJson demoEnv 0 (''kubectl get '' @ ''jobs'' @ '' -n '' @ ''ns1'' @ '' -o json'') \<in>
      {Inl ''Error: Command failed'', Inr None, Inr (Some [])}"
    by code_simp
  note t = listing_failure_is_an_empty_unit[where e = demoEnv and k = 0 and rtype = "''jobs''"
      and ns = "''ns1''" and err = "''Error: Command failed''" and q = "''web''"
      and strat = "\<lparr>type = ''fuzzy'', selector = ''web''\<rparr>"
      and searchConfig = "getFuzzyConfig ''moderate''" and inclLabels = True
      and inclAnnotations = False and lmt = 20 and found = 0,
      THEN conjunct1, THEN mp, OF 1]
  have 2: "kubectlUnifiedSearch demoEnv ((queryOnly ''web'')\<lparr>resourceTypes := Some [''jobs'']\<rparr>) =
     Inr \<lparr>shown = [quickHit (named ''web-job'') ''jobs'' ''ns2''], searchType = ''fuzzy''\<rparr>"
    by code_simp
  have 3: "(\<forall>n \<in> set [''ns1'', ''ns2'']. \<forall>j. getResourcesWithPreFilter outageEnv j ''pods'' n None None = []) \<and>
           int (length ([] :: SearchResult list)) < 20"
    by (simp add: getResourcesWithPreFilter_def outageEnv_def)
  note u = listing_failure_is_an_empty_unit[where e = outageEnv and k = 0 and rtype = "''pods''"
      and nss = "[''ns1'', ''ns2'']" and rest = "[''deployments'', ''services'']" and q = "''web''"
      and strat = "\<lparr>type = ''fuzzy'', selector = ''web''\<rparr>"
      and searchConfig = "getFuzzyConfig ''moderate''" and inclLabels = True
      and inclAnnotations = False and lmt = 20 and results = "[]",
      THEN conjunct2, THEN conjunct2, THEN conjunct1, THEN mp, OF 3]
  have 4: "kubectlUnifiedSearch outageEnv (queryOnly ''web'') =
     Inr \<lparr>shown = [quickHit (named ''web-svc'') ''services'' ''ns2''], searchType = ''fuzzy''\<rparr>"
    by code_simp
  show ?thesis
    by (rule conjI[OF 1 conjI[OF t[THEN conjunct1] conjI[OF t[THEN conjunct2]
          conjI[OF 2 conjI[OF u 4]]]]])
qed

subsection \<open>Wildcard patterns\<close>

lemma replaceAll_char:
  "replaceAll [c] rep s = concat (map (\<lambda>x. if x = c then rep else [x]) s)"
  by (induction s) auto

lemma startsWith_drop:
  "startsWith (c # s) pat \<Longrightarrow> pat \<noteq> [] \<Longrightarrow> pat @ drop (length pat - 1) s = c # s"
  by (cases pat) (auto simp: startsWith_iff)

lemma replaceAll_same: "pat \<noteq> [] \<Longrightarrow> replaceAll pat pat s = s"
proof (induction "length s" arbitrary: s rule: less_induct)
  case less
  show ?case
  proof (cases s)
    case Nil
    then show ?thesis by simp
  next
    case (Cons c t)
    show ?thesis
    proof (cases "startsWith (c # t) pat")
      case True
      have "replaceAll pat pat (drop (length pat - 1) t) = drop (length pat - 1) t"
        by (rule less.hyps) (use Cons less.prems in simp_all)
      then show ?thesis
        using True Cons startsWith_drop[OF True less.prems] by simp
    next
      case False
      have "replaceAll pat pat t = t"
        by (rule less.hyps) (use Cons less.prems in simp_all)
      then show ?thesis
        using False Cons by simp
    qed
  qed
qed

lemma concat_map_concat:
  "concat (map g (concat (map f xs))) = concat (map (\<lambda>x. concat (map g (f x))) xs)"
  by (induction xs) auto

lemma wildcardRegexSource_chars:
  "wildcardRegexSource pattern =
     concat (map (\<lambda>c. if c = CHR ''*'' then [char_of (92::nat), CHR ''.'', CHR ''*'']
                      else if c = CHR ''?'' \<or> c = CHR ''.'' then [char_of (92::nat), CHR ''.'']
                      else [c]) pattern)"
proof -
  have "wildcardRegexSource pattern =
        concat (map (\<lambda>c. concat (map (\<lambda>x. if x = CHR ''.'' then [char_of (92::nat), CHR ''.''] else [x])
                              (concat (map (\<lambda>x. if x = CHR ''?'' then ''.'' else [x])
                                 (if c = CHR ''*'' then ''.*'' else [c]))))) pattern)"
    unfolding wildcardRegexSource_def
    by (simp add: replaceAll_same replaceAll_char concat_map_concat del: replaceAll.simps)
  also have "\<dots> = concat (map (\<lambda>c. if c = CHR ''*'' then [char_of (92::nat), CHR ''.'', CHR ''*'']
                      else if c = CHR ''?'' \<or> c = CHR ''.'' then [char_of (92::nat), CHR ''.'']
                      else [c]) pattern)"
    by (intro arg_cong[where f = concat] map_cong refl) auto
  finally show ?thesis .
qed

text \<open>
  Claim C4: the code compiles a pattern otherwise than the claim says. The dots that
  the first two replacements write for the wildcards are escaped by the third, and the
  fourth replaces \<open>.*\<close> by itself. So \<open>*\<close> becomes \<open>\.*\<close> (any number of dots) and
  \<open>?\<close> becomes \<open>\.\<close> (one dot), like a dot of the pattern. The query \<open>we?app\<close> does not
  find the pod \<open>webapp-1\<close>, and the namespace pattern \<open>ns?\<close> matches neither \<open>ns1\<close> nor
  \<open>ns2\<close>.
\<close>

theorem wildcards_compile_to_escaped_dots:
  "wildcardRegexSource pattern =
     concat (map (\<lambda>c. if c = CHR ''*'' then [char_of (92::nat), CHR ''.'', CHR ''*'']
                      else if c = CHR ''?'' \<or> c = CHR ''.'' then [char_of (92::nat), CHR ''.'']
                      else [c]) pattern) \<and>
   wildcardRegexSource ''we?app'' = ''we'' @ [char_of (92::nat)] @ ''.app'' \<and>
   (case regExp demoEnv (wildcardRegexSource ''we?app'') of
      Inl err \<Rightarrow> False
    | Inr test \<Rightarrow> \<not> test ''webapp'' \<and> \<not> test ''webapp-1'' \<and> test ''we.app'') \<and>
   kubectlUnifiedSearch demoEnv (queryOnly ''we?app'') = Inr \<lparr>shown = [], searchType = ''exact''\<rparr> \<and>
   getTargetNamespaces demoEnv None (Some ''ns?'') False None None = Inr []"
proof -
  have a: "wildcardRegexSource ''we?app'' = ''we'' @ [char_of (92::nat)] @ ''.app''"
    by code_simp
  have c: "(case regExp demoEnv (wildcardRegexSource ''we?app'') of
      Inl err \<Rightarrow> False
    | Inr test \<Rightarrow> \<not> test ''webapp'' \<and> \<not> test ''webapp-1'' \<and> test ''we.app'')"
    by code_simp
  have d: "kubectlUnifiedSearch demoEnv (queryOnly ''we?app'') = Inr \<lparr>shown = [], searchType = ''exact''\<rparr>"
    by code_simp
  have e: "getTargetNamespaces demoEnv None (Some ''ns?'') False None None = Inr []"
    by code_simp
  show ?thesis by (intro conjI) (rule wildcardRegexSource_chars a c d e)+
qed

end
